theory Spec2Isabelle
  imports Complex_Main "HOL-Library.AList" "HOL-Library.Char_ord" "HOL-Library.List_Lexorder"
begin

section \<open>Python values and errors\<close>

text \<open>
  The script \<^verbatim>\<open>parse_oif.py\<close> is modelled over exact arithmetic: a Python \<^verbatim>\<open>int\<close> is
  an \<^typ>\<open>int\<close>, a finite Python \<^verbatim>\<open>float\<close> is the rational it denotes, a \<^verbatim>\<open>str\<close> is a
  \<^typ>\<open>string\<close>. Every exception the script can raise is a value of \<open>error\<close>.
\<close>

datatype error =
    KeyError string
  | IndexError
  | TypeError
  | ValueError string
  | AttributeError
  | ZeroDivisionError
  | EOFError
  | GetoptError
  | FileExistsError
  | FileNotFoundError
  | NotADirectoryError
  | IsADirectoryError
  | DecoderError
  | Unsupported

text \<open>
  What \<^verbatim>\<open>json.load\<close> returns. A \<^verbatim>\<open>dict\<close> is an association list in insertion order,
  read with \<^const>\<open>map_of\<close> and written with \<^const>\<open>AList.update\<close> (an existing key keeps
  its position, a new key goes last).
\<close>

datatype pyval =
    PNone
  | PBool bool
  | PInt int
  | PFloat rat
  | PStr string
  | PList "pyval list"
  | PDict "(string \<times> pyval) list"

text \<open>Sequencing of computations that may raise.\<close>

definition ebind :: "error + 'a \<Rightarrow> ('a \<Rightarrow> error + 'b) \<Rightarrow> error + 'b" where
  "ebind m f = (case m of Inl e \<Rightarrow> Inl e | Inr x \<Rightarrow> f x)"

text \<open>\<^verbatim>\<open>obj[key]\<close> with a string key.\<close>

fun py_getitem :: "pyval \<Rightarrow> string \<Rightarrow> error + pyval" where
  "py_getitem (PDict d) k = (case map_of d k of None \<Rightarrow> Inl (KeyError k) | Some v \<Rightarrow> Inr v)"
| "py_getitem _ k = Inl TypeError"

text \<open>\<^verbatim>\<open>obj[key] = v\<close> with a string key.\<close>

fun py_setitem :: "pyval \<Rightarrow> string \<Rightarrow> pyval \<Rightarrow> error + pyval" where
  "py_setitem (PDict d) k v = Inr (PDict (AList.update k v d))"
| "py_setitem _ k v = Inl TypeError"

text \<open>\<^verbatim>\<open>list(obj.keys())\<close>.\<close>

fun py_keys :: "pyval \<Rightarrow> error + string list" where
  "py_keys (PDict d) = Inr (map fst d)"
| "py_keys _ = Inl AttributeError"

section \<open>Decimal rendering of integers\<close>

definition digit_char :: "nat \<Rightarrow> char" where
  "digit_char d = ''0123456789'' ! d"

fun str_nat :: "nat \<Rightarrow> string" where
  "str_nat n = (if n < 10 then [digit_char n] else str_nat (n div 10) @ [digit_char (n mod 10)])"

declare str_nat.simps [simp del]

text \<open>Python's \<^verbatim>\<open>str\<close> on an \<^verbatim>\<open>int\<close>.\<close>

definition str_int :: "int \<Rightarrow> string" where
  "str_int i = (if i < 0 then CHR ''-'' # str_nat (nat (- i)) else str_nat (nat i))"

section \<open>\<^verbatim>\<open>z_to_string\<close>\<close>

definition z_to_string :: "int \<Rightarrow> int \<Rightarrow> string" where
  "z_to_string value max_value =
     (let max_str = str_int max_value;
          val_str = str_int value;
          char_dif = int (length max_str) - int (length val_str);
          out_str = val_str
      in if char_dif > 0 then replicate (nat char_dif) CHR ''0'' @ val_str else out_str)"

section \<open>\<^verbatim>\<open>scale_bit_image\<close>\<close>

text \<open>\<^verbatim>\<open>2**bits\<close>: an \<^verbatim>\<open>int\<close> for a non-negative exponent, a \<^verbatim>\<open>float\<close> otherwise.\<close>

definition pow2 :: "int \<Rightarrow> rat" where
  "pow2 bits = (if 0 \<le> bits then 2 ^ nat bits else 1 / 2 ^ nat (- bits))"

text \<open>
  Lines 39 and 40: the quotient is computed once, on Python scalars, before the image is
  touched; a zero divisor raises \<^verbatim>\<open>ZeroDivisionError\<close>.
\<close>

definition scale_quotient :: "int \<Rightarrow> rat \<Rightarrow> rat \<Rightarrow> rat \<Rightarrow> error + rat" where
  "scale_quotient bits img_min new_min new_max =
     (let img_max = pow2 bits - 1
      in if img_max - img_min = 0 then Inl ZeroDivisionError
         else Inr ((new_max - new_min) / (img_max - img_min)))"

text \<open>\<^verbatim>\<open>scale_bit_image\<close> applied to a single sample.\<close>

definition scale_bit_image :: "rat \<Rightarrow> int \<Rightarrow> rat \<Rightarrow> rat \<Rightarrow> rat \<Rightarrow> error + rat" where
  "scale_bit_image img bits img_min new_min new_max =
     (case scale_quotient bits img_min new_min new_max of
        Inl e \<Rightarrow> Inl e
      | Inr q \<Rightarrow> (let scaled = q * (img - img_min) + new_min in Inr scaled))"

text \<open>\<^verbatim>\<open>out_img.astype(int)\<close> on one sample: the conversion drops the fractional part.\<close>

definition astype_int :: "rat \<Rightarrow> int" where
  "astype_int v = (if v < 0 then - \<lfloor>- v\<rfloor> else \<lfloor>v\<rfloor>)"

section \<open>Arrays\<close>

text \<open>
  A \<^verbatim>\<open>numpy.ndarray\<close>: its shape and the sample at every full index. \<^verbatim>\<open>a[i]\<close> selects
  along the first axis and raises \<^verbatim>\<open>IndexError\<close> out of range or on a scalar.
\<close>

datatype 'a ndarray = NdArray (shape: "nat list") (item: "nat list \<Rightarrow> 'a")

definition nd_getitem :: "'a ndarray \<Rightarrow> nat \<Rightarrow> error + 'a ndarray" where
  "nd_getitem a i =
     (case shape a of
        [] \<Rightarrow> Inl IndexError
      | n # ns \<Rightarrow> if i < n then Inr (NdArray ns (\<lambda>idx. item a (i # idx))) else Inl IndexError)"

definition nd_map :: "('a \<Rightarrow> 'b) \<Rightarrow> 'a ndarray \<Rightarrow> 'b ndarray" where
  "nd_map f a = NdArray (shape a) (\<lambda>idx. f (item a idx))"

text \<open>\<^verbatim>\<open>a.shape[k]\<close>.\<close>

definition shape_at :: "'a ndarray \<Rightarrow> nat \<Rightarrow> error + nat" where
  "shape_at a k = (if k < length (shape a) then Inr (shape a ! k) else Inl IndexError)"

text \<open>\<^verbatim>\<open>scale_bit_image\<close> applied to an array of samples (element-wise broadcasting).\<close>

definition scale_bit_image_array ::
    "int ndarray \<Rightarrow> int \<Rightarrow> rat \<Rightarrow> rat \<Rightarrow> rat \<Rightarrow> error + rat ndarray" where
  "scale_bit_image_array img bits img_min new_min new_max =
     (case scale_quotient bits img_min new_min new_max of
        Inl e \<Rightarrow> Inl e
      | Inr q \<Rightarrow> Inr (nd_map (\<lambda>v. q * (of_int v - img_min) + new_min) img))"

text \<open>
  The plane of a volume at index \<open>i\<close> along axis \<open>k\<close>, and the plane at channel \<open>c\<close> and
  depth \<open>z\<close> along given channel and depth axes: what selecting by located axis
  positions means.
\<close>

definition nd_take :: "nat \<Rightarrow> nat \<Rightarrow> 'a ndarray \<Rightarrow> error + 'a ndarray" where
  "nd_take k i a =
     (if k < length (shape a) \<and> i < shape a ! k
      then Inr (NdArray (take k (shape a) @ drop (Suc k) (shape a))
                        (\<lambda>idx. item a (take k idx @ [i] @ drop k idx)))
      else Inl IndexError)"

definition plane_at :: "nat \<Rightarrow> nat \<Rightarrow> nat \<Rightarrow> nat \<Rightarrow> 'a ndarray \<Rightarrow> error + 'a ndarray" where
  "plane_at channel_idx z_idx c z a =
     (if channel_idx < z_idx then ebind (nd_take z_idx z a) (nd_take channel_idx c)
      else if z_idx < channel_idx then ebind (nd_take channel_idx c a) (nd_take z_idx z)
      else Inl IndexError)"

section \<open>Paths\<close>

text \<open>\<^verbatim>\<open>posixpath.join\<close> of two parts, \<^verbatim>\<open>basename\<close>, and the root of \<^verbatim>\<open>splitext\<close>.\<close>

definition path_join :: "string \<Rightarrow> string \<Rightarrow> string" where
  "path_join a b =
     (if b \<noteq> [] \<and> hd b = CHR ''/'' then b
      else if a = [] \<or> last a = CHR ''/'' then a @ b
      else a @ ''/'' @ b)"

definition basename :: "string \<Rightarrow> string" where
  "basename p = rev (takeWhile (\<lambda>c. c \<noteq> CHR ''/'') (rev p))"

definition splitext_root :: "string \<Rightarrow> string" where
  "splitext_root p =
     (let name = basename p;
          ext = rev (takeWhile (\<lambda>c. c \<noteq> CHR ''.'') (rev name));
          stem = take (length name - length ext - 1) name
      in if CHR ''.'' \<in> set name \<and> (\<exists>c \<in> set stem. c \<noteq> CHR ''.'')
         then take (length p - length ext - 1) p
         else p)"

section \<open>The file system\<close>

text \<open>
  A path names a node by whether it is absolute and by its components (empty and \<^verbatim>\<open>.\<close>
  components dropped). The working directory and the root always exist. Symbolic links,
  \<^verbatim>\<open>..\<close>, permissions and the identity of a relative with an absolute path are outside
  the model.
\<close>

type_synonym fpath = "bool \<times> string list"

fun split_sep :: "string \<Rightarrow> string list" where
  "split_sep [] = [[]]"
| "split_sep (c # cs) =
     (if c = CHR ''/'' then [] # split_sep cs
      else (case split_sep cs of [] \<Rightarrow> [[c]] | x # xs \<Rightarrow> (c # x) # xs))"

definition resolve :: "string \<Rightarrow> fpath" where
  "resolve p = (p \<noteq> [] \<and> hd p = CHR ''/'', filter (\<lambda>c. c \<noteq> [] \<and> c \<noteq> ''.'') (split_sep p))"

datatype content = Png "int ndarray" | JsonDump "(string \<times> pyval) list"

record filesys =
  dirs :: "fpath list"
  files :: "(fpath \<times> content) list"

definition is_file :: "filesys \<Rightarrow> fpath \<Rightarrow> bool" where
  "is_file t q = (q \<in> set (map fst (files t)))"

definition is_dir :: "filesys \<Rightarrow> fpath \<Rightarrow> bool" where
  "is_dir t q = (snd q = [] \<or> q \<in> set (dirs t))"

definition ancestors :: "fpath \<Rightarrow> fpath list" where
  "ancestors q = map (\<lambda>i. (fst q, take i (snd q))) [0..<length (snd q)]"

text \<open>\<open>lies_under q d\<close>: the node \<open>d\<close> is \<open>q\<close> or lies below it.\<close>

definition lies_under :: "fpath \<Rightarrow> fpath \<Rightarrow> bool" where
  "lies_under q d = (fst d = fst q \<and> take (length (snd q)) (snd d) = snd q)"

text \<open>\<^verbatim>\<open>os.path.exists\<close>.\<close>

definition path_exists :: "filesys \<Rightarrow> string \<Rightarrow> bool" where
  "path_exists t p =
     (p \<noteq> [] \<and> (is_dir t (resolve p) \<or> (is_file t (resolve p) \<and> last p \<noteq> CHR ''/'')))"

text \<open>\<^verbatim>\<open>os.makedirs\<close>: creates the directory and its missing ancestors.\<close>

definition makedirs :: "string \<Rightarrow> filesys \<Rightarrow> error + filesys" where
  "makedirs p t =
     (let q = resolve p
      in if p = [] then Inl FileNotFoundError
         else if is_dir t q \<or> is_file t q then Inl FileExistsError
         else if \<exists>a \<in> set (ancestors q). is_file t a then Inl NotADirectoryError
         else Inr (t\<lparr>dirs := dirs t @ filter (\<lambda>a. \<not> is_dir t a) (ancestors q @ [q])\<rparr>))"

text \<open>\<^verbatim>\<open>shutil.rmtree\<close>: removes the directory and everything below it.\<close>

definition rmtree :: "string \<Rightarrow> filesys \<Rightarrow> error + filesys" where
  "rmtree p t =
     (let q = resolve p
      in if p = [] then Inl FileNotFoundError
         else if is_dir t q
         then Inr (t\<lparr>dirs := filter (\<lambda>d. \<not> lies_under q d) (dirs t),
                     files := filter (\<lambda>(f, c). \<not> lies_under q f) (files t)\<rparr>)
         else if is_file t q then Inl NotADirectoryError
         else Inl FileNotFoundError)"

text \<open>Opening a path for writing and storing a content there.\<close>

definition write_file :: "string \<Rightarrow> content \<Rightarrow> filesys \<Rightarrow> error + filesys" where
  "write_file p c t =
     (let q = resolve p; parent = (fst q, butlast (snd q))
      in if p = [] then Inl FileNotFoundError
         else if is_dir t q \<or> last p = CHR ''/'' then Inl IsADirectoryError
         else if is_file t parent then Inl NotADirectoryError
         else if \<not> is_dir t parent then Inl FileNotFoundError
         else Inr (t\<lparr>files := AList.update q c (files t)\<rparr>))"

section \<open>The process: file system, terminal, termination\<close>

record world =
  fs :: filesys
  stdin :: "string list"
  stdout :: "string list"

text \<open>
  A run returns, raises an uncaught exception, or leaves through \<^verbatim>\<open>sys.exit\<close> with an exit
  status.
\<close>

datatype 'a result = Returned 'a | Raised error | Exited int

type_synonym 'a prog = "world \<Rightarrow> 'a result \<times> world"

definition ret :: "'a \<Rightarrow> 'a prog" where
  "ret x w = (Returned x, w)"

definition raise :: "error \<Rightarrow> 'a prog" where
  "raise e w = (Raised e, w)"

definition bind :: "'a prog \<Rightarrow> ('a \<Rightarrow> 'b prog) \<Rightarrow> 'b prog" where
  "bind m f w =
     (case m w of
        (Returned x, w') \<Rightarrow> f x w'
      | (Raised e, w') \<Rightarrow> (Raised e, w')
      | (Exited s, w') \<Rightarrow> (Exited s, w'))"

definition lift :: "error + 'a \<Rightarrow> 'a prog" where
  "lift m = (case m of Inl e \<Rightarrow> raise e | Inr x \<Rightarrow> ret x)"

text \<open>\<^verbatim>\<open>sys.exit(code)\<close>; with no argument the exit status is zero.\<close>

definition sys_exit :: "int option \<Rightarrow> 'a prog" where
  "sys_exit code w = (Exited (case code of None \<Rightarrow> 0 | Some n \<Rightarrow> n), w)"

definition print :: "string \<Rightarrow> unit prog" where
  "print s w = (Returned (), w\<lparr>stdout := stdout w @ [s]\<rparr>)"

text \<open>\<^verbatim>\<open>input(prompt)\<close>: writes the prompt, then reads one line.\<close>

definition input :: "string \<Rightarrow> string prog" where
  "input prompt w =
     (case stdin w of
        [] \<Rightarrow> (Raised EOFError, w\<lparr>stdout := stdout w @ [prompt]\<rparr>)
      | l # ls \<Rightarrow> (Returned l, w\<lparr>stdin := ls, stdout := stdout w @ [prompt]\<rparr>))"

definition fs_op :: "(filesys \<Rightarrow> error + filesys) \<Rightarrow> unit prog" where
  "fs_op f w = (case f (fs w) of Inl e \<Rightarrow> (Raised e, w) | Inr t \<Rightarrow> (Returned (), w\<lparr>fs := t\<rparr>))"

text \<open>\<^verbatim>\<open>for x in xs: body(x)\<close>.\<close>

fun for_each :: "'a list \<Rightarrow> ('a \<Rightarrow> unit prog) \<Rightarrow> unit prog" where
  "for_each [] body w = (Returned (), w)"
| "for_each (x # xs) body w =
     (case body x w of
        (Returned u, w') \<Rightarrow> for_each xs body w'
      | (Raised e, w') \<Rightarrow> (Raised e, w')
      | (Exited s, w') \<Rightarrow> (Exited s, w'))"

text \<open>\<^verbatim>\<open>str.lower\<close> on ASCII text.\<close>

definition lower_char :: "char \<Rightarrow> char" where
  "lower_char c =
     (case map_of (zip ''ABCDEFGHIJKLMNOPQRSTUVWXYZ'' ''abcdefghijklmnopqrstuvwxyz'') c of
        None \<Rightarrow> c
      | Some l \<Rightarrow> l)"

definition lower :: "string \<Rightarrow> string" where
  "lower s = map lower_char s"

section \<open>The decoder\<close>

text \<open>
  The OIF decoder (\<^verbatim>\<open>oiffile\<close>) is an external collaborator. An opened file offers its
  settings (\<^verbatim>\<open>mainfile\<close>: sections of keys, each value an integer, a float or a string),
  the axis labels of the image sequence (\<^verbatim>\<open>tiffs.axes\<close>) and the volume (\<^verbatim>\<open>asarray()\<close>).
\<close>

datatype oifval = OInt int | OFloat rat | OStr string

record oif_file =
  mainfile :: "(string \<times> (string \<times> oifval) list) list"
  tiffs_axes :: string
  asarray :: "int ndarray"

text \<open>
  What the script is given from outside: the text Python prints for a float, the result
  of opening and parsing the descriptor at a path, and the result of opening an OIF file.
\<close>

record env =
  float_repr :: "rat \<Rightarrow> string"
  load_json :: "string \<Rightarrow> error + pyval"
  open_oif :: "string \<Rightarrow> error + oif_file"

definition dict_get :: "(string \<times> 'v) list \<Rightarrow> string \<Rightarrow> error + 'v" where
  "dict_get d k = (case map_of d k of None \<Rightarrow> Inl (KeyError k) | Some v \<Rightarrow> Inr v)"

text \<open>\<^verbatim>\<open>oif.mainfile[section][key]\<close>.\<close>

definition mainfile_get :: "oif_file \<Rightarrow> string \<Rightarrow> string \<Rightarrow> error + oifval" where
  "mainfile_get oif sec k = ebind (dict_get (mainfile oif) sec) (\<lambda>d. dict_get d k)"

text \<open>How \<^verbatim>\<open>"{}".format(v)\<close> renders a decoder value.\<close>

fun format_val :: "(rat \<Rightarrow> string) \<Rightarrow> oifval \<Rightarrow> string" where
  "format_val frepr (OInt i) = str_int i"
| "format_val frepr (OFloat r) = frepr r"
| "format_val frepr (OStr s) = s"

fun to_py :: "oifval \<Rightarrow> pyval" where
  "to_py (OInt i) = PInt i"
| "to_py (OFloat r) = PFloat r"
| "to_py (OStr s) = PStr s"

section \<open>\<^verbatim>\<open>oif_to_dir_tree\<close>\<close>

text \<open>Lines 87 to 92: the entries taken from the job descriptor.\<close>

definition build_metadata :: "pyval \<Rightarrow> pyval \<Rightarrow> pyval \<Rightarrow> pyval list \<Rightarrow> (string \<times> pyval) list" where
  "build_metadata person hpf treatment channel_stains =
     fold (\<lambda>(i, each) metadata.
             AList.update (''Channel'' @ str_int (int i + 1)) (PDict [(''Stain'', each)]) metadata)
          (enumerate 0 channel_stains)
          (AList.update ''Treatment'' treatment
            (AList.update ''HPF'' hpf
              (AList.update ''Person'' person [])))"

text \<open>Line 93: only a path that is a string can be opened.\<close>

fun open_in_file :: "env \<Rightarrow> pyval \<Rightarrow> error + string \<times> oif_file" where
  "open_in_file e (PStr p) = (case open_oif e p of Inl err \<Rightarrow> Inl err | Inr oif \<Rightarrow> Inr (p, oif))"
| "open_in_file e _ = Inl TypeError"

text \<open>Line 105: the positions of the label \<^verbatim>\<open>Z\<close> in the axis order, as strings.\<close>

fun z_axis_of :: "oifval \<Rightarrow> error + string list" where
  "z_axis_of (OStr axis_order) =
     Inr (map (\<lambda>i. str_int (int i)) (filter (\<lambda>i. axis_order ! i = CHR ''Z'') [0..<length axis_order]))"
| "z_axis_of _ = Inl TypeError"

definition first_item :: "'a list \<Rightarrow> error + 'a" where
  "first_item xs = (case xs of [] \<Rightarrow> Inl IndexError | x # _ \<Rightarrow> Inr x)"

text \<open>
  Lines 94 to 109: the entries taken from the decoder's settings, and the bit count.
  Every missing section or key raises \<^verbatim>\<open>KeyError\<close>; an axis order without \<^verbatim>\<open>Z\<close> raises
  \<^verbatim>\<open>IndexError\<close>.
\<close>

definition read_settings ::
    "(rat \<Rightarrow> string) \<Rightarrow> oif_file \<Rightarrow> (string \<times> pyval) list \<Rightarrow> error + (string \<times> pyval) list \<times> oifval" where
  "read_settings frepr oif metadata0 =
     ebind (mainfile_get oif ''Acquisition Parameters Common'' ''ImageCaputreDate'') (\<lambda>datetime.
     let metadata1 = AList.update ''CaptureDateTime'' (to_py datetime) metadata0 in
     ebind (dict_get (mainfile oif) ''Reference Image Parameter'') (\<lambda>reference.
     ebind (dict_get reference ''HeightConvertValue'') (\<lambda>hv.
     ebind (dict_get reference ''HeightUnit'') (\<lambda>hu.
     let metadata2 = AList.update ''HeightConvert''
                       (PStr (format_val frepr hv @ '' '' @ format_val frepr hu)) metadata1 in
     ebind (dict_get reference ''WidthConvertValue'') (\<lambda>wv.
     ebind (dict_get reference ''WidthUnit'') (\<lambda>wu.
     let metadata3 = AList.update ''WidthConvert''
                       (PStr (format_val frepr wv @ '' '' @ format_val frepr wu)) metadata2 in
     ebind (dict_get reference ''ValidBitCounts'') (\<lambda>nbits.
     ebind (mainfile_get oif ''Axis Parameter Common'' ''AxisOrder'') (\<lambda>axis_order.
     ebind (z_axis_of axis_order) (\<lambda>z_axis.
     ebind (first_item z_axis) (\<lambda>z0.
     let axis_key = ''Axis '' @ z0 @ '' Parameters Common'' in
     ebind (mainfile_get oif axis_key ''Interval'') (\<lambda>iv.
     ebind (mainfile_get oif axis_key ''UnitName'') (\<lambda>un.
     let metadata4 = AList.update ''DepthConvert''
                       (PStr (format_val frepr iv @ '' '' @ format_val frepr un)) metadata3 in
     Inr (metadata4, nbits)))))))))))))"

text \<open>Lines 112 and 113: \<^verbatim>\<open>prefix + ...\<close> and \<^verbatim>\<open>path.join(out_dir, ...)\<close> need strings.\<close>

fun base_name_of :: "pyval \<Rightarrow> string \<Rightarrow> error + string" where
  "base_name_of (PStr prefix) in_file = Inr (prefix @ splitext_root (basename in_file))"
| "base_name_of _ in_file = Inl TypeError"

fun base_dir_of :: "pyval \<Rightarrow> string \<Rightarrow> error + string" where
  "base_dir_of (PStr out_dir) base_name = Inr (path_join out_dir base_name)"
| "base_dir_of _ base_name = Inl TypeError"

text \<open>
  Lines 118 to 120 and 143 to 145: the prompt; any answer other than \<^verbatim>\<open>y\<close> or \<^verbatim>\<open>yes\<close>
  (in any case) leaves through \<^verbatim>\<open>sys.exit()\<close>.
\<close>

definition confirm_or_exit :: "string \<Rightarrow> unit prog" where
  "confirm_or_exit prompt =
     bind (input prompt) (\<lambda>confirm.
       if lower confirm \<notin> set [''y'', ''yes''] then sys_exit None else ret ())"

text \<open>Lines 114 to 120.\<close>

definition prepare_base_dir :: "string \<Rightarrow> unit prog" where
  "prepare_base_dir base_dir w =
     (if \<not> path_exists (fs w) base_dir then fs_op (makedirs base_dir) w
      else confirm_or_exit
             (''WARNING: '' @ base_dir @ '' already exists. Potentially overwrite contents?'') w)"

text \<open>
  Lines 123 to 131: \<^verbatim>\<open>axes_dict\<close> maps a label to its last position in \<^verbatim>\<open>axes\<close>.
\<close>

definition axes_dict :: "string \<Rightarrow> char \<Rightarrow> nat option" where
  "axes_dict axes c =
     (case filter (\<lambda>i. axes ! i = c) [0..<length axes] of
        [] \<Rightarrow> None
      | i # is \<Rightarrow> Some (last (i # is)))"

definition locate_axes :: "string \<Rightarrow> error + nat \<times> nat" where
  "locate_axes axes =
     (case axes_dict axes CHR ''C'' of
        None \<Rightarrow> Inl (ValueError ''Error: No channel axis found.'')
      | Some channel_idx \<Rightarrow>
          (case axes_dict axes CHR ''Z'' of
             None \<Rightarrow> Inl (ValueError ''Error: No z-axis found.'')
           | Some z_idx \<Rightarrow> Inr (channel_idx, z_idx)))"

text \<open>Lines 139 to 147.\<close>

definition prepare_channel_dir :: "string \<Rightarrow> unit prog" where
  "prepare_channel_dir channel_path w =
     (if \<not> path_exists (fs w) channel_path then fs_op (makedirs channel_path) w
      else bind (confirm_or_exit
                   (''WARNING: '' @ channel_path @ '' already exists. Overwrite contents?''))
             (\<lambda>u. bind (fs_op (rmtree channel_path))
             (\<lambda>u. fs_op (makedirs channel_path))) w)"

text \<open>\<^verbatim>\<open>2**bits\<close> is modelled for an integer bit count only.\<close>

fun bits_of :: "oifval \<Rightarrow> error + int" where
  "bits_of (OInt b) = Inr b"
| "bits_of (OFloat r) = Inl Unsupported"
| "bits_of (OStr s) = Inl TypeError"

text \<open>Line 155: \<^verbatim>\<open>image[channel][z]\<close>.\<close>

definition select_slice :: "'a ndarray \<Rightarrow> nat \<Rightarrow> nat \<Rightarrow> error + 'a ndarray" where
  "select_slice img channel z = ebind (nd_getitem img channel) (\<lambda>a. nd_getitem a z)"

text \<open>Lines 151 to 153: the names of the slice for channel \<open>channel\<close> and depth \<open>z\<close>.\<close>

definition z_string_of :: "nat \<Rightarrow> nat \<Rightarrow> string" where
  "z_string_of z z_len = ''z'' @ z_to_string (int z) (int z_len)"

definition file_name_of :: "string \<Rightarrow> nat \<Rightarrow> nat \<Rightarrow> nat \<Rightarrow> string" where
  "file_name_of base_name channel z z_len =
     base_name @ ''c'' @ str_int (int channel + 1) @ z_string_of z z_len"

definition img_file_of :: "string \<Rightarrow> string \<Rightarrow> nat \<Rightarrow> nat \<Rightarrow> nat \<Rightarrow> string" where
  "img_file_of channel_path base_name channel z z_len =
     path_join channel_path (file_name_of base_name channel z z_len @ ''.png'')"

text \<open>Lines 155 and 156: the integer array handed to the image encoder.\<close>

definition out_pixels :: "int ndarray \<Rightarrow> oifval \<Rightarrow> nat \<Rightarrow> nat \<Rightarrow> error + int ndarray" where
  "out_pixels img nbits channel z =
     ebind (select_slice img channel z) (\<lambda>slice.
     ebind (bits_of nbits) (\<lambda>b.
     ebind (scale_bit_image_array slice b 0 0 255) (\<lambda>out_img.
     Inr (nd_map astype_int out_img))))"

text \<open>Lines 151 to 156: the body of the loop over depths.\<close>

definition write_slice :: "string \<Rightarrow> string \<Rightarrow> int ndarray \<Rightarrow> oifval \<Rightarrow> nat \<Rightarrow> nat \<Rightarrow> nat \<Rightarrow> unit prog" where
  "write_slice channel_path base_name img nbits z_len channel z =
     bind (lift (out_pixels img nbits channel z)) (\<lambda>px.
       fs_op (write_file (img_file_of channel_path base_name channel z z_len) (Png px)))"

text \<open>Lines 136 to 156: the body of the loop over channels.\<close>

definition write_channel :: "string \<Rightarrow> string \<Rightarrow> int ndarray \<Rightarrow> oifval \<Rightarrow> nat \<Rightarrow> nat \<Rightarrow> unit prog" where
  "write_channel base_dir base_name img nbits z_idx channel =
     (let channel_string = ''Channel'' @ str_int (int channel + 1);
          channel_path = path_join base_dir channel_string
      in bind (prepare_channel_dir channel_path) (\<lambda>u.
         bind (lift (shape_at img z_idx)) (\<lambda>z_len.
         for_each [0..<z_len] (write_slice channel_path base_name img nbits z_len channel))))"

text \<open>Lines 135 to 160: the channels, then the metadata file.\<close>

definition write_tree ::
    "string \<Rightarrow> string \<Rightarrow> string \<Rightarrow> int ndarray \<Rightarrow> oifval \<Rightarrow> (string \<times> pyval) list \<Rightarrow> unit prog" where
  "write_tree base_dir base_name axes img nbits metadata =
     bind (lift (locate_axes axes)) (\<lambda>(channel_idx, z_idx).
     bind (lift (shape_at img channel_idx)) (\<lambda>n_channels.
     bind (for_each [0..<n_channels] (write_channel base_dir base_name img nbits z_idx)) (\<lambda>u.
     fs_op (write_file (path_join base_dir ''metadata.json'') (JsonDump metadata)))))"

definition oif_to_dir_tree ::
    "env \<Rightarrow> pyval \<Rightarrow> pyval list \<Rightarrow> pyval \<Rightarrow> pyval \<Rightarrow> pyval \<Rightarrow> pyval \<Rightarrow> pyval \<Rightarrow> unit prog" where
  "oif_to_dir_tree e in_file channel_stains person hpf treatment out_dir prefix =
     (let metadata = build_metadata person hpf treatment channel_stains
      in bind (lift (open_in_file e in_file)) (\<lambda>(in_path, oif).
         bind (lift (read_settings (float_repr e) oif metadata)) (\<lambda>(metadata', nbits).
         bind (lift (base_name_of prefix in_path)) (\<lambda>base_name.
         bind (lift (base_dir_of out_dir base_name)) (\<lambda>base_dir.
         bind (prepare_base_dir base_dir) (\<lambda>u.
         write_tree base_dir base_name (tiffs_axes oif) (asarray oif) nbits metadata'))))))"

section \<open>The command line\<close>

definition usage_msg :: string where
  \<open>usage_msg = concat
     [''Parse an oif file to extract channel images and relevant metadata.'',
      ''    '', [CHR 0x0A, CHR 0x0A],
      ''This script takes a .json file as input with the following format:'', [CHR 0x0A, CHR 0x0A],
      ''    {'', [CHR 0x0A],
      ''    "oif_file": <location to oif file>,'', [CHR 0x0A],
      ''    "stains": {"1": <stain used in first channel>,'', [CHR 0x0A],
      ''               "2": <stain used in second channel>,'', [CHR 0x0A],
      ''               "3": <stain used in third channel>,'', [CHR 0x0A],
      ''               "4": <stain used in fourth channel>},'', [CHR 0x0A],
      ''    "person": <name of person who collected the data>,'', [CHR 0x0A],
      ''    "hpf": <hours past fertilization>,'', [CHR 0x0A],
      ''    "treatment": <treatment applied to embryo>,'', [CHR 0x0A],
      ''    "out_dir": <desired location to write output directories>,'', [CHR 0x0A],
      ''    "prefix": <optinal string to write in front of output files>'', [CHR 0x0A],
      ''    }'', [CHR 0x0A, CHR 0x0A],
      ''To run the script, issue the following command:'', [CHR 0x0A],
      ''    '', [CHR 0x0A, CHR 0x0A],
      ''python parse_oif.py <input_file.json>'']\<close>

definition usage :: "unit prog" where
  "usage = print usage_msg"

text \<open>
  \<^verbatim>\<open>getopt.getopt(argv, "h", ["help"])\<close> of the standard library: options are read up to the
  first argument that is not one; \<^verbatim>\<open>-h\<close> may be repeated in one cluster; a long option is
  any prefix of \<^verbatim>\<open>help\<close> and takes no value; anything else raises \<^verbatim>\<open>GetoptError\<close>.
\<close>

definition startswith :: "string \<Rightarrow> string \<Rightarrow> bool" where
  "startswith s pre = (take (length pre) s = pre)"

definition endswith :: "string \<Rightarrow> string \<Rightarrow> bool" where
  "endswith s suf = (length suf \<le> length s \<and> drop (length s - length suf) s = suf)"

fun do_shorts :: "(string \<times> string) list \<Rightarrow> string \<Rightarrow> error + (string \<times> string) list" where
  "do_shorts opts [] = Inr opts"
| "do_shorts opts (opt # optstring) =
     (if opt = CHR ''h'' then do_shorts (opts @ [(''-h'', [])]) optstring else Inl GetoptError)"

definition do_longs :: "(string \<times> string) list \<Rightarrow> string \<Rightarrow> error + (string \<times> string) list" where
  "do_longs opts opt =
     (let name = takeWhile (\<lambda>c. c \<noteq> CHR ''='') opt
      in if \<not> startswith ''help'' name then Inl GetoptError
         else if CHR ''='' \<in> set opt then Inl GetoptError
         else Inr (opts @ [(''--help'', [])]))"

fun getopt_loop ::
    "(string \<times> string) list \<Rightarrow> string list \<Rightarrow> error + (string \<times> string) list \<times> string list" where
  "getopt_loop opts [] = Inr (opts, [])"
| "getopt_loop opts (a # args) =
     (if startswith a ''-'' \<and> a \<noteq> ''-'' then
        (if a = ''--'' then Inr (opts, args)
         else if startswith a ''--'' then
           (case do_longs opts (drop 2 a) of Inl e \<Rightarrow> Inl e | Inr opts' \<Rightarrow> getopt_loop opts' args)
         else
           (case do_shorts opts (drop 1 a) of Inl e \<Rightarrow> Inl e | Inr opts' \<Rightarrow> getopt_loop opts' args))
      else Inr (opts, a # args))"

definition getopt :: "string list \<Rightarrow> error + (string \<times> string) list \<times> string list" where
  "getopt argv = getopt_loop [] argv"

section \<open>The descriptor\<close>

definition expected_keys :: "string list" where
  "expected_keys = [''oif_file'', ''stains'', ''person'', ''hpf'', ''treatment'', ''out_dir'', ''prefix'']"

text \<open>Lines 193 to 204. The script defines this function and never calls it.\<close>

definition check_input_dict :: "pyval \<Rightarrow> pyval prog" where
  "check_input_dict input_data =
     bind (lift (py_keys input_data)) (\<lambda>keys.
     bind (if \<not> list_all (\<lambda>x. x \<in> set expected_keys) keys then usage else ret ()) (\<lambda>u.
     bind (lift (py_getitem input_data ''out_dir'')) (\<lambda>out_dir.
     bind (lift (if out_dir \<noteq> PNone \<and> out_dir = PStr []
                 then py_setitem input_data ''out_dir'' (PStr ''.'')
                 else Inr input_data)) (\<lambda>input_data1.
     bind (lift (py_getitem input_data1 ''prefix'')) (\<lambda>prefix.
     lift (if prefix = PNone then py_setitem input_data1 ''prefix'' (PStr [])
           else Inr input_data1))))))"

text \<open>\<^verbatim>\<open>[f(i) for i in xs]\<close> where \<^verbatim>\<open>f\<close> may raise.\<close>

fun collect :: "('a \<Rightarrow> error + 'b) \<Rightarrow> 'a list \<Rightarrow> error + 'b list" where
  "collect f [] = Inr []"
| "collect f (x # xs) =
     (case f x of
        Inl e \<Rightarrow> Inl e
      | Inr y \<Rightarrow> (case collect f xs of Inl e \<Rightarrow> Inl e | Inr ys \<Rightarrow> Inr (y # ys)))"

text \<open>Lines 225 to 227: the stain labels in the sorted order of their keys.\<close>

definition stains_of :: "pyval \<Rightarrow> error + pyval list" where
  "stains_of input_data =
     ebind (ebind (py_getitem input_data ''stains'') py_keys) (\<lambda>stain_keys.
     collect (\<lambda>i. ebind (py_getitem input_data ''stains'') (\<lambda>d. py_getitem d i)) (sort stain_keys))"

text \<open>Lines 221 to 230: from the loaded descriptor to the call of \<^verbatim>\<open>oif_to_dir_tree\<close>.\<close>

definition run_descriptor :: "env \<Rightarrow> pyval \<Rightarrow> unit prog" where
  "run_descriptor e input_data =
     bind (lift (py_getitem input_data ''out_dir'')) (\<lambda>out_dir0.
     bind (lift (if out_dir0 \<noteq> PNone \<and> out_dir0 = PStr []
                 then py_setitem input_data ''out_dir'' (PStr ''.'')
                 else Inr input_data)) (\<lambda>input_data1.
     bind (lift (stains_of input_data1)) (\<lambda>stains.
     bind (lift (py_getitem input_data1 ''oif_file'')) (\<lambda>oif_file.
     bind (lift (py_getitem input_data1 ''person'')) (\<lambda>person.
     bind (lift (py_getitem input_data1 ''hpf'')) (\<lambda>hpf.
     bind (lift (py_getitem input_data1 ''treatment'')) (\<lambda>treatment.
     bind (lift (py_getitem input_data1 ''out_dir'')) (\<lambda>out_dir.
     bind (lift (py_getitem input_data1 ''prefix'')) (\<lambda>prefix.
     oif_to_dir_tree e oif_file stains person hpf treatment out_dir prefix)))))))))"

text \<open>Lines 206 to 232.\<close>

definition main :: "env \<Rightarrow> string list \<Rightarrow> unit prog" where
  "main e argv =
     (case getopt argv of
        Inl err \<Rightarrow>
          bind (print ''Failure retrieving parameters.'') (\<lambda>u.
          bind usage (\<lambda>u. sys_exit (Some 1)))
      | Inr (opts, args) \<Rightarrow>
          if \<exists>(opt, arg) \<in> set opts. opt \<in> set [''-h'', ''--help'']
          then bind usage (\<lambda>u. sys_exit (Some 0))
          else if length args = 1 \<and> endswith (args ! 0) ''.json''
          then bind (lift (load_json e (args ! 0))) (run_descriptor e)
          else usage)"

text \<open>
  The exit status of the process: zero when the script runs to its end, the argument of
  \<^verbatim>\<open>sys.exit\<close>, one for an uncaught exception.
\<close>

fun exit_status :: "unit result \<Rightarrow> int" where
  "exit_status (Returned u) = 0"
| "exit_status (Exited s) = s"
| "exit_status (Raised e) = 1"

section \<open>Auxiliary: fixed-width decimal rendering\<close>

fun dec :: "nat \<Rightarrow> nat \<Rightarrow> string" where
  "dec 0 n = []"
| "dec (Suc w) n = dec w (n div 10) @ [digit_char (n mod 10)]"

section \<open>A small acquisition, for concrete runs\<close>

text \<open>
  One channel, one depth, one 12-bit sample of value 15; the settings name axis 3 as the
  depth axis. The job descriptor \<open>example_job\<close> is well formed; \<open>odd_hpf_job\<close> gives
  the hours past fertilization as a word instead of a number; \<open>no_person_job\<close> lacks
  the key \<^verbatim>\<open>person\<close>.
\<close>

definition example_oif :: oif_file where
  "example_oif =
     \<lparr>mainfile =
        [(''Acquisition Parameters Common'', [(''ImageCaputreDate'', OStr ''2018-01-01 10:00:00'')]),
         (''Reference Image Parameter'',
            [(''HeightConvertValue'', OInt 1), (''HeightUnit'', OStr ''um''),
             (''WidthConvertValue'', OInt 1), (''WidthUnit'', OStr ''um''),
             (''ValidBitCounts'', OInt 12)]),
         (''Axis Parameter Common'', [(''AxisOrder'', OStr ''XYCZT'')]),
         (''Axis 3 Parameters Common'', [(''Interval'', OInt 2), (''UnitName'', OStr ''um'')])],
      tiffs_axes = ''CZYX'',
      asarray = NdArray [1, 1, 1, 1] (\<lambda>idx. 15)\<rparr>"

definition example_stains :: "(string \<times> pyval) list" where
  "example_stains = [(''2'', PStr ''gfp''), (''1'', PStr ''dapi''), (''3'', PStr ''rfp'')]"

definition example_job :: "(string \<times> pyval) list" where
  "example_job =
     [(''oif_file'', PStr ''data/emb.oif''), (''stains'', PDict example_stains),
      (''person'', PStr ''A''), (''hpf'', PFloat (13 / 2)), (''treatment'', PStr ''none''),
      (''out_dir'', PStr ''out''), (''prefix'', PStr [])]"

definition odd_hpf_job :: "(string \<times> pyval) list" where
  "odd_hpf_job =
     [(''oif_file'', PStr ''data/emb.oif''), (''stains'', PDict [(''1'', PStr ''dapi'')]),
      (''person'', PStr ''A''), (''hpf'', PStr ''six''), (''treatment'', PStr ''none''),
      (''out_dir'', PStr ''out''), (''prefix'', PStr [])]"

definition no_person_job :: "(string \<times> pyval) list" where
  "no_person_job =
     [(''oif_file'', PStr ''data/emb.oif''), (''stains'', PDict [(''1'', PStr ''dapi'')]),
      (''hpf'', PFloat (13 / 2)), (''treatment'', PStr ''none''),
      (''out_dir'', PStr ''out''), (''prefix'', PStr [])]"

definition example_env :: env where
  "example_env =
     \<lparr>float_repr = (\<lambda>r. ''0.0''),
      load_json = (\<lambda>p. if p = ''job.json'' then Inr (PDict example_job)
                        else if p = ''odd.json'' then Inr (PDict odd_hpf_job)
                        else if p = ''nope.json'' then Inr (PDict no_person_job)
                        else Inl FileNotFoundError),
      open_oif = (\<lambda>p. if p = ''data/emb.oif'' then Inr example_oif else Inl DecoderError)\<rparr>"

definition empty_world :: world where
  "empty_world = \<lparr>fs = \<lparr>dirs = [], files = []\<rparr>, stdin = [], stdout = []\<rparr>"

text \<open>
  A world in which the output tree of the example already exists, with one old file in
  the channel subdirectory, and in which the operator will give the listed answers.
\<close>

definition populated_world :: "string list \<Rightarrow> world" where
  "populated_world answers =
     \<lparr>fs = \<lparr>dirs = [(False, [''out'']), (False, [''out'', ''emb'']),
                    (False, [''out'', ''emb'', ''Channel1''])],
             files = [((False, [''out'', ''emb'', ''Channel1'', ''old.png'']), Png (NdArray [] (\<lambda>idx. 7)))]\<rparr>,
      stdin = answers, stdout = []\<rparr>"

section \<open>Decimal rendering\<close>

lemma length_dec [simp]: "length (dec w n) = w"
  by (induction w arbitrary: n) simp_all

lemma dec_zero: "dec w 0 = replicate w CHR ''0''"
  by (induction w) (simp_all add: digit_char_def replicate_append_same)

lemma str_nat_nonempty: "0 < length (str_nat n)"
  by (subst str_nat.simps) simp

lemma str_nat_len_le: "0 < w \<Longrightarrow> (length (str_nat n) \<le> w) = (n < 10 ^ w)"
proof (induction n arbitrary: w rule: str_nat.induct)
  case (1 n)
  show ?case
  proof (cases "n < 10")
    case True
    have "(10::nat) ^ 1 \<le> 10 ^ w" using 1(2) by (intro power_increasing) simp_all
    with True 1(2) show ?thesis by (subst str_nat.simps) simp
  next
    case False
    show ?thesis
    proof (cases "w = 1")
      case True
      with False str_nat_nonempty [of "n div 10"] show ?thesis
        by (subst str_nat.simps) simp
    next
      case w: False
      then obtain v where v: "w = Suc v" "0 < v" using 1(2) by (cases w) auto
      have "(length (str_nat (n div 10)) \<le> v) = (n div 10 < 10 ^ v)"
        using 1(1) [OF False v(2)] .
      moreover have "(n div 10 < 10 ^ v) = (n < 10 ^ w)"
        using v(1) by (simp add: less_mult_imp_div_less div_less_iff_less_mult mult.commute)
      ultimately show ?thesis using False v(1)
        by (subst str_nat.simps) simp
    qed
  qed
qed

lemma str_nat_bound: "n < 10 ^ length (str_nat n)"
  using str_nat_len_le [of "length (str_nat n)" n] str_nat_nonempty [of n] by simp

lemma str_nat_len_mono: "m \<le> n \<Longrightarrow> length (str_nat m) \<le> length (str_nat n)"
proof -
  assume mn: "m \<le> n"
  with str_nat_bound [of n] have "m < 10 ^ length (str_nat n)" by simp
  then show ?thesis
    using str_nat_len_le [of "length (str_nat n)" m] str_nat_nonempty [of n] by simp
qed

lemma pad_str_nat:
  "length (str_nat n) \<le> w \<Longrightarrow> replicate (w - length (str_nat n)) CHR ''0'' @ str_nat n = dec w n"
proof (induction w arbitrary: n)
  case 0
  then show ?case using str_nat_nonempty [of n] by simp
next
  case (Suc w)
  show ?case
  proof (cases "n < 10")
    case True
    then have "str_nat n = [digit_char n]" by (subst str_nat.simps) simp
    with True show ?thesis by (simp add: dec_zero)
  next
    case False
    then have eq: "str_nat n = str_nat (n div 10) @ [digit_char (n mod 10)]"
      by (subst str_nat.simps) simp
    with Suc.prems have "length (str_nat (n div 10)) \<le> w" by simp
    from Suc.IH [OF this] show ?thesis using eq by (simp add: Suc_diff_le)
  qed
qed

lemma of_char_digit: "d < 10 \<Longrightarrow> of_char (digit_char d) = 48 + d"
proof -
  assume "d < 10"
  then have "d \<in> {0,1,2,3,4,5,6,7,8,9}" by auto
  then show ?thesis by (auto simp: digit_char_def)
qed

lemma digit_char_less: "a < b \<Longrightarrow> b < 10 \<Longrightarrow> digit_char a < digit_char b"
  by (simp add: less_char_def of_char_digit)

lemma dec_mono: "m < n \<Longrightarrow> n < 10 ^ w \<Longrightarrow> dec w m < dec w n"
proof (induction w arbitrary: m n)
  case 0
  then show ?case by simp
next
  case (Suc w)
  show ?case
  proof (cases "m div 10 < n div 10")
    case True
    have "n div 10 < 10 ^ w" using Suc.prems(2) by (simp add: less_mult_imp_div_less mult.commute)
    from Suc.IH [OF True this] have "(dec w (m div 10), dec w (n div 10)) \<in> lexord {(u, v). u < v}"
      by (simp add: list_less_def)
    then have "(dec w (m div 10) @ [digit_char (m mod 10)], dec w (n div 10) @ [digit_char (n mod 10)])
        \<in> lexord {(u, v). u < v}"
      by (rule lexord_sufI) simp
    then show ?thesis by (simp add: list_less_def)
  next
    case False
    have "m div 10 \<le> n div 10" using Suc.prems(1) by (simp add: div_le_mono)
    with False have eq: "m div 10 = n div 10" by simp
    have "m div 10 * 10 + m mod 10 < n div 10 * 10 + n mod 10"
      using Suc.prems(1) by (simp only: div_mult_mod_eq)
    then have lt: "m mod 10 < n mod 10"
      by (simp only: eq nat_add_left_cancel_less)
    have "digit_char (m mod 10) < digit_char (n mod 10)"
      by (rule digit_char_less [OF lt]) simp
    then show ?thesis using eq by (simp add: list_less_def lexord_append_leftI)
  qed
qed

lemma str_int_nat [simp]: "str_int (int n) = str_nat n"
  by (simp add: str_int_def)

text \<open>
  For a depth index below the length passed as \<^verbatim>\<open>max_value\<close>, \<^verbatim>\<open>z_to_string\<close> is the
  decimal rendering of the index at the width of the rendering of that length.
\<close>

lemma z_to_string_dec:
  assumes "z < L"
  shows "z_to_string (int z) (int L) = dec (length (str_nat L)) z"
proof -
  have le: "length (str_nat z) \<le> length (str_nat L)"
    using assms by (intro str_nat_len_mono) simp
  show ?thesis
  proof (cases "length (str_nat z) < length (str_nat L)")
    case True
    then have "z_to_string (int z) (int L)
        = replicate (length (str_nat L) - length (str_nat z)) CHR ''0'' @ str_nat z"
      by (simp add: z_to_string_def Let_def nat_diff_distrib' of_nat_diff)
    then show ?thesis using pad_str_nat [OF le] by simp
  next
    case False
    with le have eq: "length (str_nat z) = length (str_nat L)" by simp
    then have "z_to_string (int z) (int L) = str_nat z"
      by (simp add: z_to_string_def Let_def)
    then show ?thesis using pad_str_nat [OF le] eq by simp
  qed
qed

lemma less_append_same: "(ys::string) < zs \<Longrightarrow> xs @ ys < xs @ zs"
  by (simp add: list_less_def lexord_append_leftI)

lemma less_append_suffix: "(us::string) < ws \<Longrightarrow> length ws \<le> length us \<Longrightarrow> us @ v < ws @ z"
  by (simp add: list_less_def lexord_sufI)

lemma path_join_append:
  "p \<noteq> [] \<Longrightarrow> \<exists>X. \<forall>s. path_join a (p @ s) = X @ s"
proof -
  assume p: "p \<noteq> []"
  then have hd: "\<And>s. hd (p @ s) = hd p" by simp
  show ?thesis
  proof (cases "hd p = CHR ''/''")
    case True
    with p hd have "\<forall>s. path_join a (p @ s) = p @ s" by (simp add: path_join_def)
    then show ?thesis by blast
  next
    case False
    show ?thesis
    proof (cases "a = [] \<or> last a = CHR ''/''")
      case True
      with False p hd have "\<forall>s. path_join a (p @ s) = (a @ p) @ s" by (auto simp: path_join_def)
      then show ?thesis by blast
    next
      case F2: False
      with False p hd have "\<forall>s. path_join a (p @ s) = (a @ ''/'' @ p) @ s"
        by (auto simp: path_join_def)
      then show ?thesis by blast
    qed
  qed
qed

section \<open>The rescale\<close>

lemma pow2_ge_2: "1 \<le> B \<Longrightarrow> 2 \<le> pow2 B"
proof -
  assume B: "1 \<le> B"
  then obtain k where k: "nat B = Suc k" by (cases "nat B") auto
  have "(1::rat) \<le> 2 ^ k" by simp
  then have "(2::rat) \<le> 2 ^ Suc k" by simp
  with B k show ?thesis by (simp add: pow2_def)
qed

lemma scale_quotient_255:
  "1 \<le> B \<Longrightarrow> scale_quotient B 0 0 255 = Inr (255 / (pow2 B - 1))"
  using pow2_ge_2 [of B] by (simp add: scale_quotient_def Let_def)

lemma scale_bit_image_255:
  "1 \<le> B \<Longrightarrow> scale_bit_image x B 0 0 255 = Inr (255 / (pow2 B - 1) * x)"
  by (simp add: scale_bit_image_def scale_quotient_255)

text \<open>
  C2. For every bit depth \<open>B \<ge> 1\<close>, \<^verbatim>\<open>scale_bit_image(x, B, 0, 0, 255)\<close> over exact
  arithmetic is 0 at \<open>x = 0\<close>, is 255 at \<open>x = 2^B - 1\<close>, and is monotonically non-decreasing
  in \<open>x\<close> on the integers of \<open>[0, 2^B - 1]\<close>.
\<close>

theorem scale_bit_image_monotone_endpoints:
  "1 \<le> B \<Longrightarrow>
     scale_bit_image 0 B 0 0 255 = Inr 0 \<and>
     scale_bit_image (of_int (2 ^ nat B - 1)) B 0 0 255 = Inr 255 \<and>
     (\<forall>x y. 0 \<le> x \<and> x \<le> y \<and> y \<le> 2 ^ nat B - 1 \<longrightarrow>
        (\<exists>a b. scale_bit_image (of_int x) B 0 0 255 = Inr a \<and>
               scale_bit_image (of_int y) B 0 0 255 = Inr b \<and> a \<le> b))"
proof -
  assume B: "1 \<le> B"
  have pos: "0 < pow2 B - 1" using pow2_ge_2 [OF B] by simp
  have top: "(of_int (2 ^ nat B - 1) :: rat) = pow2 B - 1" using B by (simp add: pow2_def)
  have e0: "scale_bit_image 0 B 0 0 255 = Inr 0"
    by (simp add: scale_bit_image_255 [OF B])
  have e1: "scale_bit_image (of_int (2 ^ nat B - 1)) B 0 0 255 = Inr 255"
  proof -
    have "255 / (pow2 B - 1) * (pow2 B - 1) = 255" using pos by (simp add: field_simps)
    then show ?thesis unfolding top by (simp only: scale_bit_image_255 [OF B])
  qed
  have mono: "255 / (pow2 B - 1) * of_int x \<le> 255 / (pow2 B - 1) * of_int y" if "x \<le> y" for x y :: int
    using pos that by (intro mult_left_mono) simp_all
  have e2: "\<forall>x y. 0 \<le> x \<and> x \<le> y \<and> y \<le> 2 ^ nat B - 1 \<longrightarrow>
        (\<exists>a b. scale_bit_image (of_int x) B 0 0 255 = Inr a \<and>
               scale_bit_image (of_int y) B 0 0 255 = Inr b \<and> a \<le> b)"
    using mono by (simp only: scale_bit_image_255 [OF B]) blast
  from e0 e1 e2 show ?thesis by blast
qed

theorem scale_bit_image_monotone_endpoints_witness:
  "scale_bit_image 0 8 0 0 255 = Inr 0 \<and>
   scale_bit_image 255 8 0 0 255 = Inr 255 \<and>
   (\<exists>a b. scale_bit_image 3 8 0 0 255 = Inr a \<and> scale_bit_image 200 8 0 0 255 = Inr b \<and> a \<le> b)"
proof -
  have h: "(1::int) \<le> 8" by simp
  note t = scale_bit_image_monotone_endpoints [OF h]
  from t have a: "scale_bit_image 0 8 0 0 255 = Inr 0" by (rule conjunct1)
  from t have "scale_bit_image (of_int (2 ^ nat 8 - 1)) 8 0 0 255 = Inr 255"
    by (elim conjE)
  then have b: "scale_bit_image 255 8 0 0 255 = Inr 255" by simp
  from t have "(0::int) \<le> 3 \<and> (3::int) \<le> 200 \<and> (200::int) \<le> 2 ^ nat 8 - 1 \<longrightarrow>
      (\<exists>a b. scale_bit_image (of_int 3) 8 0 0 255 = Inr a \<and>
             scale_bit_image (of_int 200) 8 0 0 255 = Inr b \<and> a \<le> b)"
    by (elim conjE allE)
  then have c: "\<exists>a b. scale_bit_image 3 8 0 0 255 = Inr a \<and>
      scale_bit_image 200 8 0 0 255 = Inr b \<and> a \<le> b" by simp
  from a b c show ?thesis by (intro conjI)
qed

section \<open>File names\<close>

text \<open>Every suffix of a volume has the width of the rendering of the axis length.\<close>

lemma z_suffix_width:
  "z < L \<Longrightarrow> length (z_to_string (int z) (int L)) = length (str_int (int L))"
  by (simp add: z_to_string_dec)

text \<open>
  C4. The claim asks for the width \<^verbatim>\<open>len(str(L-1))\<close>. The script passes the axis length
  \<open>L\<close> itself as \<^verbatim>\<open>max_value\<close>, so the width is \<^verbatim>\<open>len(str(L))\<close>: for \<open>L = 10\<close> and depth 3
  the suffix is \<^verbatim>\<open>z03\<close>, of width two, while \<^verbatim>\<open>len(str(9))\<close> is one.
\<close>

theorem z_suffix_width_at_ten:
  "z_string_of 3 10 = ''z03'' \<and> length (z_to_string 3 10) = 2 \<and> length (str_int (10 - 1)) = 1"
  by (simp add: z_string_of_def z_to_string_def str_int_def str_nat.simps digit_char_def)

text \<open>
  C5. For depth indices \<open>z1 < z2\<close> below the axis length \<open>L\<close>, the file name generated for
  \<open>z1\<close> is lexicographically smaller than the one generated for \<open>z2\<close>, both as the bare
  name and as the path inside the channel subdirectory.
\<close>

theorem file_names_sorted_by_depth:
  "z1 < z2 \<Longrightarrow> z2 < L \<Longrightarrow>
     file_name_of base_name channel z1 L @ ''.png'' < file_name_of base_name channel z2 L @ ''.png'' \<and>
     img_file_of channel_path base_name channel z1 L < img_file_of channel_path base_name channel z2 L"
proof -
  assume lt: "z1 < z2" and z2: "z2 < L"
  let ?w = "length (str_nat L)"
  let ?p = "base_name @ ''c'' @ str_int (int channel + 1) @ ''z''"
  have z1: "z1 < L" using lt z2 by simp
  have "z2 < 10 ^ ?w" using z2 str_nat_bound [of L] by simp
  from dec_mono [OF lt this] have "dec ?w z1 @ ''.png'' < dec ?w z2 @ ''.png''"
    by (rule less_append_suffix) simp
  then have suf: "z_to_string (int z1) (int L) @ ''.png'' < z_to_string (int z2) (int L) @ ''.png''"
    by (simp add: z_to_string_dec z1 z2)
  have name: "file_name_of base_name channel z L @ ''.png'' = ?p @ z_to_string (int z) (int L) @ ''.png''" for z
    by (simp add: file_name_of_def z_string_of_def)
  have "?p \<noteq> []" by simp
  from path_join_append [OF this, of channel_path] obtain X
    where X: "\<And>s. path_join channel_path (?p @ s) = X @ s" by blast
  have "img_file_of channel_path base_name channel z L = X @ z_to_string (int z) (int L) @ ''.png''" for z
    unfolding img_file_of_def name by (rule X)
  then show ?thesis using suf by (simp only: name less_append_same)
qed

theorem file_names_sorted_by_depth_witness:
  "(9::nat) < 10 \<and> (10::nat) < 100 \<and>
   file_name_of ''emb'' 0 9 100 @ ''.png'' < file_name_of ''emb'' 0 10 100 @ ''.png'' \<and>
   img_file_of ''out/emb/Channel1'' ''emb'' 0 9 100 < img_file_of ''out/emb/Channel1'' ''emb'' 0 10 100"
proof -
  have h1: "(9::nat) < 10" and h2: "(10::nat) < 100" by simp_all
  note t = file_names_sorted_by_depth [OF h1 h2, of "''emb''" 0 "''out/emb/Channel1''"]
  from h1 h2 t show ?thesis by blast
qed

section \<open>Slices\<close>

text \<open>The slice the script takes is the plane of the claim when the channel axis is the
  first axis and the depth axis the second.\<close>

lemma select_slice_leading_axes: "select_slice a c z = plane_at 0 1 c z a"
proof (cases a)
  case (NdArray sh it)
  show ?thesis
  proof (cases sh)
    case Nil
    with NdArray show ?thesis
      by (simp add: select_slice_def plane_at_def nd_getitem_def nd_take_def ebind_def)
  next
    case (Cons n ns)
    show ?thesis
    proof (cases ns)
      case Nil
      with NdArray Cons show ?thesis
        by (simp add: select_slice_def plane_at_def nd_getitem_def nd_take_def ebind_def)
    next
      case (Cons m ms)
      with NdArray \<open>sh = n # ns\<close> show ?thesis
        by (simp add: select_slice_def plane_at_def nd_getitem_def nd_take_def ebind_def)
    qed
  qed
qed

text \<open>
  C3. The claim asks for the plane at index \<open>c\<close> along the located channel axis and \<open>z\<close>
  along the located depth axis. The script locates both axes but uses the positions for
  the loop bounds only; the slice is \<^verbatim>\<open>image[channel][z]\<close>, the first two axes whatever
  their labels. For the axis order \<^verbatim>\<open>ZCYX\<close> and a 2 by 2 by 1 by 1 volume whose sample at
  depth \<open>z\<close> and channel \<open>c\<close> is \<open>10 z + c\<close>, the slice for channel 0 and depth 1 holds the
  sample 1 (depth 0, channel 1) where the plane of the claim holds 10.
\<close>

theorem slice_ignores_located_axes:
  "locate_axes ''ZCYX'' = Inr (1, 0) \<and>
   map_sum id (\<lambda>a. (shape a, item a [0, 0]))
     (select_slice (NdArray [2, 2, 1, 1] (\<lambda>idx. 10 * int (idx ! 0) + int (idx ! 1))) 0 1)
     = Inr ([1, 1], 1) \<and>
   map_sum id (\<lambda>a. (shape a, item a [0, 0]))
     (plane_at 1 0 0 1 (NdArray [2, 2, 1, 1] (\<lambda>idx. 10 * int (idx ! 0) + int (idx ! 1))))
     = Inr ([1, 1], 10)"
  by (simp add: locate_axes_def axes_dict_def upt_rec select_slice_def nd_getitem_def ebind_def
      plane_at_def nd_take_def)

lemma astype_int_trunc:
  "astype_int v = (if 0 \<le> v then \<lfloor>v\<rfloor> else \<lceil>v\<rceil>) \<and>
   \<bar>of_int (astype_int v)\<bar> \<le> \<bar>v\<bar> \<and> \<bar>v - of_int (astype_int v)\<bar> < 1"
proof (cases "0 \<le> v")
  case True
  then have a: "astype_int v = \<lfloor>v\<rfloor>" by (simp add: astype_int_def)
  have "0 \<le> \<lfloor>v\<rfloor>" using True by simp
  then have b: "(0::rat) \<le> of_int \<lfloor>v\<rfloor>" by simp
  have c: "of_int \<lfloor>v\<rfloor> \<le> v" "v < of_int \<lfloor>v\<rfloor> + 1" by linarith+
  from b c True have "\<bar>of_int \<lfloor>v\<rfloor>\<bar> \<le> \<bar>v\<bar>" "\<bar>v - of_int \<lfloor>v\<rfloor>\<bar> < 1" by linarith+
  with a True show ?thesis by simp
next
  case False
  then have a: "astype_int v = \<lceil>v\<rceil>" by (simp add: astype_int_def ceiling_def)
  have "\<lceil>v\<rceil> \<le> 0" using False by (simp add: ceiling_le_iff)
  then have b: "of_int \<lceil>v\<rceil> \<le> (0::rat)" by simp
  have c: "v \<le> of_int \<lceil>v\<rceil>" "of_int \<lceil>v\<rceil> < v + 1" by linarith+
  from b c False have "\<bar>of_int \<lceil>v\<rceil>\<bar> \<le> \<bar>v\<bar>" "\<bar>v - of_int \<lceil>v\<rceil>\<bar> < 1" by linarith+
  with a False show ?thesis by simp
qed

text \<open>
  C9. Every sample handed to the image encoder is the rescaled sample with its fractional
  part dropped (the floor of a non-negative value, the ceiling of a negative one), so it
  never exceeds the rescaled sample in magnitude and differs from it by less than one;
  it is not the nearest integer.
\<close>

theorem slice_samples_truncated:
  "select_slice img channel z = Inr slice \<Longrightarrow> bits_of nbits = Inr b \<Longrightarrow>
   scale_bit_image_array slice b 0 0 255 = Inr out_img \<Longrightarrow>
     (\<exists>px. out_pixels img nbits channel z = Inr px \<and> shape px = shape out_img \<and>
        (\<forall>idx. item px idx = (if 0 \<le> item out_img idx then \<lfloor>item out_img idx\<rfloor> else \<lceil>item out_img idx\<rceil>) \<and>
               \<bar>of_int (item px idx)\<bar> \<le> \<bar>item out_img idx\<bar> \<and>
               \<bar>item out_img idx - of_int (item px idx)\<bar> < 1))"
proof -
  assume h: "select_slice img channel z = Inr slice" "bits_of nbits = Inr b"
    "scale_bit_image_array slice b 0 0 255 = Inr out_img"
  let ?px = "nd_map astype_int out_img"
  have "out_pixels img nbits channel z = Inr ?px"
    using h by (simp add: out_pixels_def ebind_def)
  moreover have "shape ?px = shape out_img" by (simp add: nd_map_def)
  moreover have e: "item ?px idx = astype_int (item out_img idx)" for idx
    by (simp add: nd_map_def)
  have "item ?px idx = (if 0 \<le> item out_img idx then \<lfloor>item out_img idx\<rfloor> else \<lceil>item out_img idx\<rceil>) \<and>
               \<bar>of_int (item ?px idx)\<bar> \<le> \<bar>item out_img idx\<bar> \<and>
               \<bar>item out_img idx - of_int (item ?px idx)\<bar> < 1" for idx
    unfolding e by (rule astype_int_trunc)
  ultimately show ?thesis by blast
qed

theorem slice_samples_truncated_witness:
  "\<exists>px. out_pixels (NdArray [1, 1, 1, 1] (\<lambda>idx. 15)) (OInt 12) 0 0 = Inr px \<and>
        shape px = [1, 1] \<and> item px [0, 0] = 0"
proof -
  let ?img = "NdArray [1, 1, 1, 1] (\<lambda>idx. 15) :: int ndarray"
  let ?slice = "NdArray [1, 1] (\<lambda>idx. 15) :: int ndarray"
  let ?out = "NdArray [1, 1] (\<lambda>idx. 85 / 91) :: rat ndarray"
  have h1: "select_slice ?img 0 0 = Inr ?slice"
    by (simp add: select_slice_def nd_getitem_def ebind_def)
  have h2: "bits_of (OInt 12) = Inr 12" by simp
  have h3: "scale_bit_image_array ?slice 12 0 0 255 = Inr ?out"
    by (simp add: scale_bit_image_array_def scale_quotient_def pow2_def nd_map_def)
  from slice_samples_truncated [OF h1 h2 h3] obtain px where
    px: "out_pixels ?img (OInt 12) 0 0 = Inr px" "shape px = shape ?out"
      "\<forall>idx. item px idx = (if 0 \<le> item ?out idx then \<lfloor>item ?out idx\<rfloor> else \<lceil>item ?out idx\<rceil>)"
    by blast
  from px(3) have "item px [0, 0] = 0" by (simp add: floor_eq_iff)
  with px(1,2) show ?thesis by simp
qed

section \<open>The metadata record\<close>






section \<open>Unfolding sets\<close>

lemmas monad_defs = bind_def lift_def ret_def raise_def sys_exit_def print_def input_def fs_op_def
  ebind_def

lemmas example_defs = example_env_def example_oif_def example_job_def example_stains_def
  odd_hpf_job_def no_person_job_def empty_world_def populated_world_def

section \<open>Sequencing\<close>

lemma bind_lift_Inl: "bind (lift (Inl err)) f w = (Raised err, w)"
  by (simp add: bind_def lift_def raise_def)

lemma bind_lift_Inr: "bind (lift (Inr x)) f w = f x w"
  by (simp add: bind_def lift_def ret_def)

lemma raises_bind_lift:
  "(\<And>x. m = Inr x \<Longrightarrow> \<exists>err. f x w = (Raised err, w)) \<Longrightarrow> \<exists>err. bind (lift m) f w = (Raised err, w)"
  by (cases m) (simp_all add: bind_lift_Inl bind_lift_Inr)

lemma for_each_append:
  "for_each (xs @ ys) body w =
     (case for_each xs body w of
        (Returned u, w') \<Rightarrow> for_each ys body w'
      | (Raised e, w') \<Rightarrow> (Raised e, w')
      | (Exited s, w') \<Rightarrow> (Exited s, w'))"
proof (induction xs arbitrary: w)
  case Nil
  show ?case by simp
next
  case (Cons x xs)
  show ?case
  proof (cases "body x w")
    case (Pair r w')
    then show ?thesis using Cons.IH [of w'] by (cases r) simp_all
  qed
qed

section \<open>The descriptor's keys\<close>

lemma run_descriptor_missing_key:
  assumes "k \<in> set expected_keys" "map_of d k = None"
  shows "\<exists>err. run_descriptor e (PDict d) w = (Raised err, w)"
proof -
  have upd: "map_of (AList.update ''out_dir'' v d) k' = None" if "map_of d k' = None" "k' \<noteq> ''out_dir''" for k' v
    using that by (simp add: update_conv')
  show ?thesis
    unfolding run_descriptor_def
    apply (rule raises_bind_lift)+
    using assms upd
    apply (auto simp: expected_keys_def stains_of_def ebind_def update_conv'
        split: if_splits option.splits sum.splits)
    done
qed

text \<open>
  C1 (as amended). Every required key is looked up before \<^verbatim>\<open>oif_to_dir_tree\<close> is called:
  when the loaded descriptor lacks any of them, the run ends in an uncaught exception
  and nothing has changed: no directory, no file, no output.
\<close>

theorem missing_key_raises_before_side_effects:
  "getopt argv = Inr ([], [p]) \<Longrightarrow> endswith p ''.json'' \<Longrightarrow> load_json e p = Inr (PDict d) \<Longrightarrow>
   k \<in> set expected_keys \<Longrightarrow> map_of d k = None \<Longrightarrow>
     \<exists>err. main e argv w = (Raised err, w)"
proof -
  assume h: "getopt argv = Inr ([], [p])" "endswith p ''.json''" "load_json e p = Inr (PDict d)"
    and k: "k \<in> set expected_keys" "map_of d k = None"
  from h have "main e argv w = run_descriptor e (PDict d) w"
    by (simp add: main_def bind_lift_Inr)
  with run_descriptor_missing_key [OF k] show ?thesis by simp
qed

theorem missing_key_raises_before_side_effects_witness:
  "\<exists>err. main example_env [''nope.json''] empty_world = (Raised err, empty_world)"
proof -
  have h1: "getopt [''nope.json''] = Inr ([], [''nope.json''])"
    by (simp add: getopt_def startswith_def)
  have h2: "endswith ''nope.json'' ''.json''" by (simp add: endswith_def)
  have h3: "load_json example_env ''nope.json'' = Inr (PDict no_person_job)"
    by (simp add: example_env_def)
  have h4: "''person'' \<in> set expected_keys" by (simp add: expected_keys_def)
  have h5: "map_of no_person_job ''person'' = None" by (simp add: no_person_job_def)
  from missing_key_raises_before_side_effects [OF h1 h2 h3 h4 h5] show ?thesis .
qed

text \<open>
  C1 as stated also promises an exit before any side effect for a malformed value.
  A descriptor whose \<^verbatim>\<open>hpf\<close> is the string \<^verbatim>\<open>six\<close> is processed to the end: the tree is
  created and the slice and the metadata file are written.
\<close>

theorem malformed_hpf_is_processed:
  "map_of odd_hpf_job ''hpf'' = Some (PStr ''six'') \<and>
   fst (main example_env [''odd.json''] empty_world) = Returned () \<and>
   dirs (fs (snd (main example_env [''odd.json''] empty_world))) =
     [(False, [''out'']), (False, [''out'', ''emb'']), (False, [''out'', ''emb'', ''Channel1''])] \<and>
   map fst (files (fs (snd (main example_env [''odd.json''] empty_world)))) =
     [(False, [''out'', ''emb'', ''Channel1'', ''embc1z0.png'']),
      (False, [''out'', ''emb'', ''metadata.json''])]"
  by code_simp

section \<open>The command line\<close>

lemma main_parse_failure:
  "getopt argv = Inl err \<Longrightarrow>
     main e argv w =
       (Exited 1, w\<lparr>stdout := stdout w @ [''Failure retrieving parameters.'', usage_msg]\<rparr>)"
  by (simp add: main_def usage_def monad_defs)

lemma do_shorts_opts:
  "do_shorts opts s = Inr opts' \<Longrightarrow> fst ` set opts' \<subseteq> fst ` set opts \<union> {''-h'', ''--help''}"
proof (induction opts s rule: do_shorts.induct)
  case (1 opts)
  then show ?case by auto
next
  case (2 opts opt optstring)
  then show ?case by (auto split: if_splits)
qed

lemma getopt_loop_opts:
  "getopt_loop opts args = Inr (opts', rest) \<Longrightarrow>
     fst ` set opts' \<subseteq> fst ` set opts \<union> {''-h'', ''--help''}"
proof (induction opts args rule: getopt_loop.induct)
  case (1 opts)
  then show ?case by auto
next
  case (2 opts a args)
  show ?case
  proof (cases "startswith a ''-'' \<and> a \<noteq> ''-''")
    case False
    with 2(3) show ?thesis by auto
  next
    case opt: True
    show ?thesis
    proof (cases "a = ''--''")
      case True
      with opt 2(3) show ?thesis by auto
    next
      case nd: False
      show ?thesis
      proof (cases "startswith a ''--''")
        case True
        with opt nd 2(3) obtain o1 where o1: "do_longs opts (drop 2 a) = Inr o1"
          "getopt_loop o1 args = Inr (opts', rest)"
          by (auto split: sum.splits)
        from o1(1) have "fst ` set o1 \<subseteq> fst ` set opts \<union> {''-h'', ''--help''}"
          by (auto simp: do_longs_def Let_def split: if_splits)
        moreover from 2(1) [OF opt nd True o1(1) o1(2)]
        have "fst ` set opts' \<subseteq> fst ` set o1 \<union> {''-h'', ''--help''}" .
        ultimately show ?thesis by blast
      next
        case False
        with opt nd 2(3) obtain o1 where o1: "do_shorts opts (drop 1 a) = Inr o1"
          "getopt_loop o1 args = Inr (opts', rest)"
          by (auto split: sum.splits)
        from do_shorts_opts [OF o1(1)]
        have "fst ` set o1 \<subseteq> fst ` set opts \<union> {''-h'', ''--help''}" .
        moreover from 2(2) [OF opt nd False o1(1) o1(2)]
        have "fst ` set opts' \<subseteq> fst ` set o1 \<union> {''-h'', ''--help''}" .
        ultimately show ?thesis by blast
      qed
    qed
  qed
qed

lemma main_help:
  assumes "getopt argv = Inr (opts, args)" "opts \<noteq> []"
  shows "main e argv w = (Exited 0, w\<lparr>stdout := stdout w @ [usage_msg]\<rparr>)"
proof -
  from assms(2) obtain opt arg where oa: "(opt, arg) \<in> set opts" by (cases opts) auto
  from getopt_loop_opts [of "[]" argv opts args] assms(1)
  have "fst ` set opts \<subseteq> {''-h'', ''--help''}" by (simp add: getopt_def)
  with oa have "opt \<in> {''-h'', ''--help''}" by force
  with oa have "\<exists>(opt, arg) \<in> set opts. opt \<in> set [''-h'', ''--help'']" by auto
  with assms(1) show ?thesis
    by (simp add: main_def usage_def monad_defs del: set_simps)
qed

lemma main_usage_only:
  assumes "getopt argv = Inr ([], args)" "\<not> (length args = 1 \<and> endswith (args ! 0) ''.json'')"
  shows "main e argv w = (Returned (), w\<lparr>stdout := stdout w @ [usage_msg]\<rparr>)"
  using assms by (auto simp: main_def usage_def print_def)

text \<open>
  C10. The help flag and a parsing failure behave as the claim says (\<open>main_help\<close>,
  \<open>main_parse_failure\<close>). Any other argument list that is not one positional argument
  ending in \<^verbatim>\<open>.json\<close> prints the usage text and then runs off the end of the script, so
  the exit status is zero, not non-zero: with no argument at all, and with the one
  argument \<^verbatim>\<open>data.txt\<close>.
\<close>

theorem usage_without_error_status:
  "fst (main example_env [] empty_world) = Returned () \<and>
   stdout (snd (main example_env [] empty_world)) = [usage_msg] \<and>
   exit_status (fst (main example_env [] empty_world)) = 0 \<and>
   fst (main example_env [''data.txt''] empty_world) = Returned () \<and>
   stdout (snd (main example_env [''data.txt''] empty_world)) = [usage_msg] \<and>
   exit_status (fst (main example_env [''data.txt''] empty_world)) = 0"
  by code_simp

section \<open>Overwrite prompts\<close>

lemma confirm_decline:
  "stdin w = answer # rest \<Longrightarrow> lower answer \<notin> set [''y'', ''yes''] \<Longrightarrow>
     confirm_or_exit prompt w = (Exited 0, w\<lparr>stdin := rest, stdout := stdout w @ [prompt]\<rparr>)"
  by (simp add: confirm_or_exit_def bind_def input_def sys_exit_def del: set_simps)

lemma confirm_accept:
  "stdin w = answer # rest \<Longrightarrow> lower answer \<in> set [''y'', ''yes''] \<Longrightarrow>
     confirm_or_exit prompt w = (Returned (), w\<lparr>stdin := rest, stdout := stdout w @ [prompt]\<rparr>)"
  by (simp add: confirm_or_exit_def bind_def input_def ret_def del: set_simps)

lemma write_channel_decline:
  assumes "stdin w = answer # rest" "lower answer \<notin> set [''y'', ''yes'']"
    "path_exists (fs w) (path_join base_dir (''Channel'' @ str_int (int channel + 1)))"
  shows "write_channel base_dir base_name img nbits z_idx channel w =
    (Exited 0, w\<lparr>stdin := rest, stdout := stdout w @
       [''WARNING: '' @ path_join base_dir (''Channel'' @ str_int (int channel + 1)) @
        '' already exists. Overwrite contents?'']\<rparr>)"
  using assms(3) confirm_decline [OF assms(1,2)]
  by (simp add: write_channel_def prepare_channel_dir_def bind_def Let_def del: set_simps)

text \<open>
  C6 (as amended). When the operator declines an overwrite prompt, for the parent
  directory or for any channel subdirectory, the run ends at once through \<^verbatim>\<open>sys.exit()\<close>,
  whose exit status is zero; nothing but the prompt has been written since.
\<close>

theorem decline_exits_with_status_zero:
  "stdin w = answer # rest \<Longrightarrow> lower answer \<notin> set [''y'', ''yes''] \<Longrightarrow>
   (path_exists (fs w) base_dir \<and>
    open_in_file e in_file = Inr (in_path, oif) \<and>
    read_settings (float_repr e) oif (build_metadata person hpf treatment channel_stains)
      = Inr (metadata, nbits) \<and>
    base_name_of prefix in_path = Inr base_name \<and>
    base_dir_of out_dir base_name = Inr base_dir \<longrightarrow>
      oif_to_dir_tree e in_file channel_stains person hpf treatment out_dir prefix w =
        (Exited 0, w\<lparr>stdin := rest, stdout := stdout w @
           [''WARNING: '' @ base_dir @ '' already exists. Potentially overwrite contents?'']\<rparr>)) \<and>
   (path_exists (fs w) (path_join base_dir (''Channel'' @ str_int (int channel + 1))) \<and>
    for_each earlier (write_channel base_dir base_name img nbits z_idx) w0 = (Returned (), w) \<longrightarrow>
      for_each (earlier @ channel # later) (write_channel base_dir base_name img nbits z_idx) w0 =
        (Exited 0, w\<lparr>stdin := rest, stdout := stdout w @
           [''WARNING: '' @ path_join base_dir (''Channel'' @ str_int (int channel + 1)) @
            '' already exists. Overwrite contents?'']\<rparr>))"
proof -
  assume a: "stdin w = answer # rest" "lower answer \<notin> set [''y'', ''yes'']"
  have base: "oif_to_dir_tree e in_file channel_stains person hpf treatment out_dir prefix w =
        (Exited 0, w\<lparr>stdin := rest, stdout := stdout w @
           [''WARNING: '' @ base_dir @ '' already exists. Potentially overwrite contents?'']\<rparr>)"
    if "path_exists (fs w) base_dir" "open_in_file e in_file = Inr (in_path, oif)"
      "read_settings (float_repr e) oif (build_metadata person hpf treatment channel_stains)
        = Inr (metadata, nbits)"
      "base_name_of prefix in_path = Inr base_name" "base_dir_of out_dir base_name = Inr base_dir"
  proof -
    have "prepare_base_dir base_dir w = (Exited 0, w\<lparr>stdin := rest, stdout := stdout w @
           [''WARNING: '' @ base_dir @ '' already exists. Potentially overwrite contents?'']\<rparr>)"
      using that(1) confirm_decline [OF a] by (simp add: prepare_base_dir_def)
    then show ?thesis
      using that(2-5) by (simp add: oif_to_dir_tree_def Let_def bind_lift_Inr) (simp add: bind_def)
  qed
  have chan: "for_each (earlier @ channel # later) (write_channel base_dir base_name img nbits z_idx) w0 =
        (Exited 0, w\<lparr>stdin := rest, stdout := stdout w @
           [''WARNING: '' @ path_join base_dir (''Channel'' @ str_int (int channel + 1)) @
            '' already exists. Overwrite contents?'']\<rparr>)"
    if "path_exists (fs w) (path_join base_dir (''Channel'' @ str_int (int channel + 1)))"
      "for_each earlier (write_channel base_dir base_name img nbits z_idx) w0 = (Returned (), w)"
    using that(2) write_channel_decline [OF a that(1)] by (simp add: for_each_append)
  from base chan show ?thesis by blast
qed

theorem decline_exits_with_status_zero_witness:
  "oif_to_dir_tree example_env (PStr ''data/emb.oif'') [PStr ''dapi''] (PStr ''A'') (PFloat (13 / 2))
       (PStr ''none'') (PStr ''out'') (PStr []) (populated_world [''n'']) =
     (Exited 0, (populated_world [''n''])\<lparr>stdin := [], stdout := [] @
        [''WARNING: '' @ ''out/emb'' @ '' already exists. Potentially overwrite contents?'']\<rparr>) \<and>
   for_each ([] @ 0 # [1]) (write_channel ''out/emb'' ''emb'' (asarray example_oif) (OInt 12) 1)
       (populated_world [''n'']) =
     (Exited 0, (populated_world [''n''])\<lparr>stdin := [], stdout := [] @
        [''WARNING: '' @ path_join ''out/emb'' (''Channel'' @ str_int (int 0 + 1)) @
         '' already exists. Overwrite contents?'']\<rparr>)"
proof -
  let ?w = "populated_world [''n'']"
  have h1: "stdin ?w = ''n'' # []" by (simp add: populated_world_def)
  have h2: "lower ''n'' \<notin> set [''y'', ''yes'']" by code_simp
  have b1: "path_exists (fs ?w) ''out/emb''" by code_simp
  have b2: "open_in_file example_env (PStr ''data/emb.oif'') = Inr (''data/emb.oif'', example_oif)"
    by (simp add: example_env_def)
  obtain metadata where b3:
    "read_settings (float_repr example_env) example_oif
       (build_metadata (PStr ''A'') (PFloat (13 / 2)) (PStr ''none'') [PStr ''dapi''])
      = Inr (metadata, OInt 12)"
    by (simp add: read_settings_def ebind_def mainfile_get_def dict_get_def example_oif_def
        first_item_def upt_rec str_int_def str_nat.simps digit_char_def)
  have b4: "base_name_of (PStr []) ''data/emb.oif'' = Inr ''emb''" by code_simp
  have b5: "base_dir_of (PStr ''out'') ''emb'' = Inr ''out/emb''" by code_simp
  have c1: "path_exists (fs ?w) (path_join ''out/emb'' (''Channel'' @ str_int (int 0 + 1)))"
    by code_simp
  have c2: "for_each [] (write_channel ''out/emb'' ''emb'' (asarray example_oif) (OInt 12) 1) ?w
      = (Returned (), ?w)" by simp
  have stdout0: "stdout ?w = []" by (simp add: populated_world_def)
  note t = decline_exits_with_status_zero [OF h1 h2,
      where base_dir = "''out/emb''" and e = example_env and in_file = "PStr ''data/emb.oif''"
        and in_path = "''data/emb.oif''" and oif = example_oif and person = "PStr ''A''"
        and hpf = "PFloat (13 / 2)" and treatment = "PStr ''none''"
        and channel_stains = "[PStr ''dapi'']" and metadata = metadata and nbits = "OInt 12"
        and prefix = "PStr []" and base_name = "''emb''" and out_dir = "PStr ''out''"
        and channel = 0 and earlier = "[]" and img = "asarray example_oif"
        and z_idx = 1 and ?w0.0 = ?w and later = "[1]"]
  from t b1 b2 b3 b4 b5 c1 c2 show ?thesis unfolding stdout0 by blast
qed

text \<open>
  C6 as stated asks for a non-zero exit status. With the parent directory present
  and the answer \<^verbatim>\<open>n\<close>, the run leaves through \<^verbatim>\<open>sys.exit()\<close> and the exit status is zero.
\<close>

theorem decline_exit_status_is_zero:
  "fst (oif_to_dir_tree example_env (PStr ''data/emb.oif'') [PStr ''dapi''] (PStr ''A'')
          (PFloat (13 / 2)) (PStr ''none'') (PStr ''out'') (PStr []) (populated_world [''n'']))
     = Exited 0 \<and>
   exit_status (fst (oif_to_dir_tree example_env (PStr ''data/emb.oif'') [PStr ''dapi''] (PStr ''A'')
          (PFloat (13 / 2)) (PStr ''none'') (PStr ''out'') (PStr []) (populated_world [''n''])))
     = 0"
  by code_simp

section \<open>Channel paths\<close>

lemma split_sep_nonempty: "split_sep s \<noteq> []"
  by (induction s) (auto split: list.splits)

lemma split_sep_append:
  "CHR ''/'' \<notin> set ys \<Longrightarrow>
     split_sep (xs @ ys) = butlast (split_sep xs) @ [last (split_sep xs) @ ys]"
proof (induction xs)
  case Nil
  then show ?case by (induction ys) auto
next
  case (Cons c cs)
  obtain x xs' where s: "split_sep cs = x # xs'"
    using split_sep_nonempty [of cs] by (cases "split_sep cs") auto
  from Cons show ?case by (auto simp: s)
qed

lemma str_nat_digits: "set (str_nat n) \<subseteq> set ''0123456789''"
proof (induction n rule: str_nat.induct)
  case (1 n)
  have d: "digit_char k \<in> set ''0123456789''" if "k < 10" for k
  proof -
    from that have "k \<in> {0,1,2,3,4,5,6,7,8,9}" by auto
    then show ?thesis by (auto simp: digit_char_def)
  qed
  show ?case
  proof (cases "n < 10")
    case True
    then show ?thesis using d [of n] by (subst str_nat.simps) simp
  next
    case False
    then show ?thesis using 1 [OF False] d [of "n mod 10"]
      by (subst str_nat.simps) simp
  qed
qed

lemma channel_string_no_sep: "CHR ''/'' \<notin> set (''Channel'' @ str_int (int channel + 1))"
proof -
  have "int channel + 1 = int (Suc channel)" by simp
  then have "str_int (int channel + 1) = str_nat (Suc channel)" by (simp only: str_int_nat)
  then show ?thesis using str_nat_digits [of "Suc channel"] by auto
qed

lemma path_join_suffix: "b \<noteq> [] \<Longrightarrow> hd b \<noteq> CHR ''/'' \<Longrightarrow> \<exists>X. path_join a b = X @ b"
  by (auto simp: path_join_def)

lemma channel_path_resolves:
  "path_join base_dir (''Channel'' @ str_int (int channel + 1)) \<noteq> [] \<and>
   snd (resolve (path_join base_dir (''Channel'' @ str_int (int channel + 1)))) \<noteq> []"
proof -
  let ?b = "''Channel'' @ str_int (int channel + 1)"
  obtain X where X: "path_join base_dir ?b = X @ ?b"
    using path_join_suffix [of ?b base_dir] by auto
  have "split_sep (X @ ?b) = butlast (split_sep X) @ [last (split_sep X) @ ?b]"
    by (rule split_sep_append [OF channel_string_no_sep])
  moreover have "last (split_sep X) @ ?b \<noteq> []" "last (split_sep X) @ ?b \<noteq> ''.''"
    by (simp_all add: append_eq_Cons_conv)
  ultimately have "last (split_sep X) @ ?b \<in> set (snd (resolve (X @ ?b)))"
    by (simp add: resolve_def)
  then show ?thesis unfolding X by auto
qed

section \<open>Removing and recreating a directory\<close>

lemma lies_under_refl: "lies_under q q"
  by (simp add: lies_under_def)

lemma ancestor_not_under: "a \<in> set (ancestors q) \<Longrightarrow> \<not> lies_under q a"
proof
  assume "a \<in> set (ancestors q)" and u: "lies_under q a"
  then obtain i where i: "i < length (snd q)" "a = (fst q, take i (snd q))"
    by (auto simp: ancestors_def)
  from u i have "take (length (snd q)) (take i (snd q)) = snd q" by (simp add: lies_under_def)
  then have "length (take (length (snd q)) (take i (snd q))) = length (snd q)" by simp
  with i(1) show False by simp
qed

lemma map_of_filter_frame:
  "\<not> P f \<Longrightarrow> map_of (filter (\<lambda>(g, c). \<not> P g) xs) f = map_of xs f"
  by (induction xs) auto

lemma prepare_channel_dir_accept:
  assumes inp: "stdin w = answer # rest" "lower answer \<in> set [''y'', ''yes'']"
    and p: "p \<noteq> []" "snd (resolve p) \<noteq> []"
    and d: "is_dir (fs w) (resolve p)"
    and anc: "\<forall>a \<in> set (ancestors (resolve p)). \<not> is_file (fs w) a"
  shows "\<exists>w'. prepare_channel_dir p w = (Returned (), w') \<and>
      is_dir (fs w') (resolve p) \<and>
      (\<forall>f. lies_under (resolve p) f \<longrightarrow> \<not> is_file (fs w') f) \<and>
      (\<forall>g. lies_under (resolve p) g \<and> g \<noteq> resolve p \<longrightarrow> \<not> is_dir (fs w') g) \<and>
      (\<forall>f. \<not> lies_under (resolve p) f \<longrightarrow> map_of (files (fs w')) f = map_of (files (fs w)) f)"
proof -
  let ?q = "resolve p"
  let ?w1 = "w\<lparr>stdin := rest, stdout := stdout w @ [''WARNING: '' @ p @ '' already exists. Overwrite contents?'']\<rparr>"
  let ?t1 = "(fs w)\<lparr>dirs := filter (\<lambda>g. \<not> lies_under ?q g) (dirs (fs w)),
                    files := filter (\<lambda>(f, c). \<not> lies_under ?q f) (files (fs w))\<rparr>"
  let ?t2 = "?t1\<lparr>dirs := dirs ?t1 @ filter (\<lambda>a. \<not> is_dir ?t1 a) (ancestors ?q @ [?q])\<rparr>"
  have ex: "path_exists (fs w) p" using p(1) d by (simp add: path_exists_def)
  have rm: "rmtree p (fs w) = Inr ?t1" using p(1) d by (simp add: rmtree_def Let_def)
  have nd: "\<not> is_dir ?t1 ?q" using p(2) by (simp add: is_dir_def lies_under_refl)
  have nf: "\<not> is_file ?t1 ?q" by (auto simp: is_file_def lies_under_refl)
  have na: "\<not> (\<exists>a \<in> set (ancestors ?q). is_file ?t1 a)"
    using anc by (auto simp: is_file_def)
  have mk: "makedirs p ?t1 = Inr ?t2"
    using p(1) nd nf na by (simp add: makedirs_def Let_def)
  have run: "prepare_channel_dir p w = (Returned (), ?w1\<lparr>fs := ?t2\<rparr>)"
    using ex confirm_accept [OF inp, of "''WARNING: '' @ p @ '' already exists. Overwrite contents?''"] rm mk
    by (simp add: prepare_channel_dir_def bind_def fs_op_def)
  have a1: "is_dir ?t2 ?q" using nd by (simp add: is_dir_def)
  have a2: "\<not> is_file ?t2 f" if "lies_under ?q f" for f
    using that by (auto simp: is_file_def)
  have a3: "\<not> is_dir ?t2 g" if "lies_under ?q g" "g \<noteq> ?q" for g
  proof
    assume "is_dir ?t2 g"
    then consider "snd g = []" | "g \<in> set (dirs ?t1)" | "g \<in> set (ancestors ?q)" | "g = ?q"
      by (auto simp: is_dir_def split: if_splits)
    then show False
    proof cases
      case 1
      with that(1) p(2) show False by (simp add: lies_under_def)
    next
      case 2
      with that(1) show False by simp
    next
      case 3
      with ancestor_not_under [OF 3] that(1) show False by simp
    next
      case 4
      with that(2) show False by simp
    qed
  qed
  have a4: "map_of (files ?t2) f = map_of (files (fs w)) f" if "\<not> lies_under ?q f" for f
    using map_of_filter_frame [of "lies_under ?q" f "files (fs w)"] that by simp
  from run a1 a2 a3 a4 show ?thesis
    by (intro exI [of _ "?w1\<lparr>fs := ?t2\<rparr>"]) (simp del: set_append)
qed

text \<open>
  C7. Let the channel subdirectory exist when its prompt is reached. If the operator
  declines, the run ends there and the file system is exactly as it was at the prompt:
  the old files are untouched and no slice is written. If the operator accepts (and no
  ancestor of the subdirectory is a regular file, as in any real tree), the subdirectory
  is removed with everything below it and created again, so that it exists, holds no
  file and no directory, and everything outside it is as before; the slices of the
  channel are written from that state on. Accepting the prompt for the parent directory
  changes nothing in the file system.
\<close>

theorem channel_overwrite_prompt:
  "stdin w = answer # rest \<Longrightarrow>
   (is_dir (fs w) (resolve (path_join base_dir (''Channel'' @ str_int (int channel + 1)))) \<and>
    lower answer \<notin> set [''y'', ''yes''] \<and>
    for_each earlier (write_channel base_dir base_name img nbits z_idx) w0 = (Returned (), w) \<longrightarrow>
      (\<exists>w'. for_each (earlier @ channel # later) (write_channel base_dir base_name img nbits z_idx) w0
               = (Exited 0, w') \<and> fs w' = fs w)) \<and>
   (is_dir (fs w) (resolve (path_join base_dir (''Channel'' @ str_int (int channel + 1)))) \<and>
    lower answer \<in> set [''y'', ''yes''] \<and>
    (\<forall>a \<in> set (ancestors (resolve (path_join base_dir (''Channel'' @ str_int (int channel + 1))))).
       \<not> is_file (fs w) a) \<longrightarrow>
      (\<exists>w'. prepare_channel_dir (path_join base_dir (''Channel'' @ str_int (int channel + 1))) w
               = (Returned (), w') \<and>
            is_dir (fs w') (resolve (path_join base_dir (''Channel'' @ str_int (int channel + 1)))) \<and>
            (\<forall>f. lies_under (resolve (path_join base_dir (''Channel'' @ str_int (int channel + 1)))) f
                   \<longrightarrow> \<not> is_file (fs w') f) \<and>
            (\<forall>g. lies_under (resolve (path_join base_dir (''Channel'' @ str_int (int channel + 1)))) g \<and>
                 g \<noteq> resolve (path_join base_dir (''Channel'' @ str_int (int channel + 1)))
                   \<longrightarrow> \<not> is_dir (fs w') g) \<and>
            (\<forall>f. \<not> lies_under (resolve (path_join base_dir (''Channel'' @ str_int (int channel + 1)))) f
                   \<longrightarrow> map_of (files (fs w')) f = map_of (files (fs w)) f) \<and>
            write_channel base_dir base_name img nbits z_idx channel w =
              bind (lift (shape_at img z_idx)) (\<lambda>z_len.
                for_each [0..<z_len]
                  (write_slice (path_join base_dir (''Channel'' @ str_int (int channel + 1)))
                     base_name img nbits z_len channel)) w')) \<and>
   (path_exists (fs w) base_dir \<and> lower answer \<in> set [''y'', ''yes''] \<longrightarrow>
      (\<exists>w'. prepare_base_dir base_dir w = (Returned (), w') \<and> fs w' = fs w))"
proof -
  assume inp: "stdin w = answer # rest"
  let ?p = "path_join base_dir (''Channel'' @ str_int (int channel + 1))"
  note pr = channel_path_resolves [of base_dir channel]
  have decline: "\<exists>w'. for_each (earlier @ channel # later) (write_channel base_dir base_name img nbits z_idx) w0
               = (Exited 0, w') \<and> fs w' = fs w"
    if "is_dir (fs w) (resolve ?p)" "lower answer \<notin> set [''y'', ''yes'']"
      "for_each earlier (write_channel base_dir base_name img nbits z_idx) w0 = (Returned (), w)"
  proof -
    have "path_exists (fs w) ?p" using that(1) pr by (simp add: path_exists_def)
    from write_channel_decline [OF inp that(2) this, of base_name img nbits z_idx] that(3)
    show ?thesis by (simp add: for_each_append)
  qed
  have accept: "\<exists>w'. prepare_channel_dir ?p w = (Returned (), w') \<and>
            is_dir (fs w') (resolve ?p) \<and>
            (\<forall>f. lies_under (resolve ?p) f \<longrightarrow> \<not> is_file (fs w') f) \<and>
            (\<forall>g. lies_under (resolve ?p) g \<and> g \<noteq> resolve ?p \<longrightarrow> \<not> is_dir (fs w') g) \<and>
            (\<forall>f. \<not> lies_under (resolve ?p) f \<longrightarrow> map_of (files (fs w')) f = map_of (files (fs w)) f) \<and>
            write_channel base_dir base_name img nbits z_idx channel w =
              bind (lift (shape_at img z_idx)) (\<lambda>z_len.
                for_each [0..<z_len] (write_slice ?p base_name img nbits z_len channel)) w'"
    if "is_dir (fs w) (resolve ?p)" "lower answer \<in> set [''y'', ''yes'']"
      "\<forall>a \<in> set (ancestors (resolve ?p)). \<not> is_file (fs w) a"
  proof -
    from prepare_channel_dir_accept [OF inp that(2) conjunct1 [OF pr] conjunct2 [OF pr] that(1) that(3)]
    obtain w' where w': "prepare_channel_dir ?p w = (Returned (), w')"
      "is_dir (fs w') (resolve ?p)"
      "\<forall>f. lies_under (resolve ?p) f \<longrightarrow> \<not> is_file (fs w') f"
      "\<forall>g. lies_under (resolve ?p) g \<and> g \<noteq> resolve ?p \<longrightarrow> \<not> is_dir (fs w') g"
      "\<forall>f. \<not> lies_under (resolve ?p) f \<longrightarrow> map_of (files (fs w')) f = map_of (files (fs w)) f"
      by blast
    have "write_channel base_dir base_name img nbits z_idx channel w =
              bind (lift (shape_at img z_idx)) (\<lambda>z_len.
                for_each [0..<z_len] (write_slice ?p base_name img nbits z_len channel)) w'"
      by (subst write_channel_def, subst Let_def, subst Let_def, subst bind_def)
         (simp only: w'(1) prod.case result.case)
    with w' show ?thesis by blast
  qed
  have parent: "\<exists>w'. prepare_base_dir base_dir w = (Returned (), w') \<and> fs w' = fs w"
    if "path_exists (fs w) base_dir" "lower answer \<in> set [''y'', ''yes'']"
    using that(1) confirm_accept [OF inp that(2)] by (simp add: prepare_base_dir_def)
  from decline accept parent show ?thesis by blast
qed

theorem channel_overwrite_prompt_witness:
  "(\<exists>w'. for_each ([] @ 0 # []) (write_channel ''out/emb'' ''emb'' (asarray example_oif) (OInt 12) 1)
            (populated_world [''n'']) = (Exited 0, w') \<and>
         fs w' = fs (populated_world [''n''])) \<and>
   (\<exists>w'. prepare_channel_dir ''out/emb/Channel1'' (populated_world [''Y'']) = (Returned (), w') \<and>
         is_dir (fs w') (False, [''out'', ''emb'', ''Channel1'']) \<and>
         \<not> is_file (fs w') (False, [''out'', ''emb'', ''Channel1'', ''old.png''])) \<and>
   (\<exists>w'. prepare_base_dir ''out/emb'' (populated_world [''Y'']) = (Returned (), w') \<and>
         fs w' = fs (populated_world [''Y'']))"
proof -
  let ?p = "path_join ''out/emb'' (''Channel'' @ str_int (int 0 + 1))"
  let ?q = "(False, [''out'', ''emb'', ''Channel1''])"
  let ?n = "populated_world [''n'']"
  let ?y = "populated_world [''Y'']"
  have p: "?p = ''out/emb/Channel1''" by code_simp
  have q: "resolve ?p = ?q" by code_simp
  have n1: "stdin ?n = ''n'' # []" and y1: "stdin ?y = ''Y'' # []"
    by (simp_all add: populated_world_def)
  have n2: "lower ''n'' \<notin> set [''y'', ''yes'']" by code_simp
  have y2: "lower ''Y'' \<in> set [''y'', ''yes'']" by code_simp
  have n3: "is_dir (fs ?n) (resolve ?p)" by code_simp
  have y3: "is_dir (fs ?y) (resolve ?p)" by code_simp
  have n4: "for_each [] (write_channel ''out/emb'' ''emb'' (asarray example_oif) (OInt 12) 1) ?n
      = (Returned (), ?n)" by simp
  have y4: "\<forall>a \<in> set (ancestors (resolve ?p)). \<not> is_file (fs ?y) a" by code_simp
  have y5: "path_exists (fs ?y) ''out/emb''" by code_simp
  have u: "lies_under (resolve ?p) (False, [''out'', ''emb'', ''Channel1'', ''old.png''])"
    by code_simp
  note tn = channel_overwrite_prompt [OF n1, where base_dir = "''out/emb''" and channel = 0
      and earlier = "[]" and later = "[]" and base_name = "''emb''"
      and img = "asarray example_oif" and nbits = "OInt 12" and z_idx = 1 and ?w0.0 = ?n]
  note ty = channel_overwrite_prompt [OF y1, where base_dir = "''out/emb''" and channel = 0
      and earlier = "[]" and later = "[]" and base_name = "''emb''"
      and img = "asarray example_oif" and nbits = "OInt 12" and z_idx = 1 and ?w0.0 = ?y]
  from tn n2 n3 n4 have a: "\<exists>w'. for_each ([] @ 0 # [])
        (write_channel ''out/emb'' ''emb'' (asarray example_oif) (OInt 12) 1) ?n = (Exited 0, w') \<and>
      fs w' = fs ?n" by blast
  from ty y2 y3 y4 obtain w' where b: "prepare_channel_dir ?p ?y = (Returned (), w')"
      "is_dir (fs w') (resolve ?p)"
      "\<forall>f. lies_under (resolve ?p) f \<longrightarrow> \<not> is_file (fs w') f"
    by blast
  from b(3) u have "\<not> is_file (fs w') (False, [''out'', ''emb'', ''Channel1'', ''old.png''])"
    by blast
  with b(1,2) have b': "\<exists>w'. prepare_channel_dir ''out/emb/Channel1'' ?y = (Returned (), w') \<and>
         is_dir (fs w') ?q \<and>
         \<not> is_file (fs w') (False, [''out'', ''emb'', ''Channel1'', ''old.png''])"
    unfolding q unfolding p by blast
  from ty y2 y5 have c: "\<exists>w'. prepare_base_dir ''out/emb'' ?y = (Returned (), w') \<and> fs w' = fs ?y"
    by blast
  from a b' c show ?thesis by blast
qed

end
